theory Spec2Isabelle
  imports Main "HOL-Library.Word"
begin

unbundle bit_operations_syntax

section \<open>The pool resource of \<^verbatim>\<open>dali/core/mm/pool_resource.h\<close>\<close>

text \<open>
  A shallow embedding of \<^verbatim>\<open>pool_resource_base\<close> and \<^verbatim>\<open>deferred_dealloc_pool\<close>.
  \<^verbatim>\<open>size_t\<close> and pointers are 64-bit words (\<open>+\<close>, \<open>-\<close> wrap, the order is the unsigned
  one, the null pointer is \<open>0\<close>); \<^verbatim>\<open>int\<close> device ids and counters are \<open>int\<close>.
  A data member \<^verbatim>\<open>x_\<close> of a class is the record field \<open>x\<close>; the member
  \<^verbatim>\<open>next_block_size_\<close> is the field \<open>next_block_size_field\<close>, since the member function
  keeps the name \<open>next_block_size\<close>. The fields \<^verbatim>\<open>ptr\<close>, \<^verbatim>\<open>bytes\<close>, \<^verbatim>\<open>alignment\<close> of the
  two small structs carry the prefixes \<open>dp_\<close> and \<open>blk_\<close>.
\<close>

type_synonym size_t = "64 word"
type_synonym pointer = "64 word"

subsection \<open>Options and plain data\<close>

datatype sync_scope = scope_none | scope_device | scope_system

text \<open>
  \<^verbatim>\<open>growth_factor\<close> is a \<^verbatim>\<open>float\<close> in the source and is only used in the product
  \<^verbatim>\<open>next_block_size_ * options_.growth_factor\<close>, converted to \<^verbatim>\<open>size_t\<close>. The field
  \<open>growth_factor\<close> is that whole operation: it maps the cursor to the converted product
  as the machine computes it.
\<close>

record pool_options =
  max_block_size :: size_t
  min_block_size :: size_t
  growth_factor :: "size_t \<Rightarrow> size_t"
  try_smaller_on_failure :: bool
  return_to_upstream_on_failure :: bool
  sync :: sync_scope
  enable_deferred_deallocation :: bool
  max_outstanding_deallocations :: int
  upstream_alignment :: size_t

record dealloc_params =
  sync_device :: int
  dp_ptr :: pointer
  dp_bytes :: size_t
  dp_alignment :: size_t

record UpstreamBlock =
  blk_ptr :: pointer
  blk_bytes :: size_t
  blk_alignment :: size_t

datatype error = bad_alloc | push_back_failed | assertion_failed

subsection \<open>The CUDA runtime\<close>

text \<open>
  The runtime is external. Its state is the current device, the number of devices and the
  devices on which \<^verbatim>\<open>cudaDeviceSynchronize\<close> has run, oldest first. Every CUDA call is
  taken to succeed (\<^verbatim>\<open>CUDA_CALL\<close> never throws).
\<close>

record cuda_runtime =
  current_device :: nat
  device_count :: nat
  synchronized :: "int list"

definition cudaGetDevice :: "cuda_runtime \<Rightarrow> int" where
  "cudaGetDevice c = int (current_device c)"

definition cudaDeviceSynchronize :: "cuda_runtime \<Rightarrow> cuda_runtime" where
  "cudaDeviceSynchronize c = c\<lparr>synchronized := synchronized c @ [cudaGetDevice c]\<rparr>"

text \<open>
  \<^verbatim>\<open>DeviceGuard dg(dev); CUDA_CALL(cudaDeviceSynchronize());\<close>: the guard selects \<open>dev\<close>
  and restores the previous device when it leaves the scope.
\<close>

definition synchronize_on :: "int \<Rightarrow> cuda_runtime \<Rightarrow> cuda_runtime" where
  "synchronize_on dev c = c\<lparr>synchronized := synchronized c @ [dev]\<rparr>"

definition synchronize_all_devices :: "cuda_runtime \<Rightarrow> cuda_runtime" where
  "synchronize_all_devices c =
     c\<lparr>synchronized := synchronized c @ map int [0 ..< device_count c]\<rparr>"

definition detail_synchronize :: "sync_scope \<Rightarrow> cuda_runtime \<Rightarrow> cuda_runtime" where
  "detail_synchronize scope c =
     (if scope = scope_device then cudaDeviceSynchronize c
      else if scope = scope_system then synchronize_all_devices c
      else c)"

subsection \<open>Helpers of \<^verbatim>\<open>dali/core/util.h\<close>\<close>

text \<open>
  Modelled from the spec: the integer base-2 logarithm of a natural number, for
  \<^verbatim>\<open>ilog2\<close> below: the position of the highest set bit, and 0 for 0.
\<close>

fun ilog2_nat :: "nat \<Rightarrow> nat" where
  "ilog2_nat n = (if n < 2 then 0 else Suc (ilog2_nat (n div 2)))"

declare ilog2_nat.simps [simp del]

text \<open>
  Modelled from the spec: \<^verbatim>\<open>ilog2\<close> is declared in \<^verbatim>\<open>dali/core/util.h\<close>, which is not
  among the sources. It is the integer base-2 logarithm of its argument, an \<^verbatim>\<open>int\<close>.
\<close>

definition ilog2 :: "size_t \<Rightarrow> int" where
  "ilog2 x = int (ilog2_nat (unat x))"

text \<open>
  Modelled from the spec: aligning up, on natural numbers, for \<^verbatim>\<open>align_up\<close> below.
  \<open>round_up n a\<close> is the least multiple of \<open>a\<close> that is not below \<open>n\<close>.
\<close>

definition round_up :: "nat \<Rightarrow> nat \<Rightarrow> nat" where
  "round_up n a = ((n + a - 1) div a) * a"

text \<open>
  Modelled from the spec: \<^verbatim>\<open>align_up\<close> is declared in \<^verbatim>\<open>dali/core/util.h\<close>, which is
  not among the sources. \<open>align_up x a\<close> aligns \<open>x\<close> up to \<open>a\<close>, as a \<^verbatim>\<open>size_t\<close>: the
  multiple is taken modulo \<open>2 ^ 64\<close>.
\<close>

definition align_up :: "size_t \<Rightarrow> size_t \<Rightarrow> size_t" where
  "align_up x a = word_of_nat (round_up (unat x) (unat a))"

subsection \<open>The collaborators\<close>

text \<open>
  The free list (a template parameter) and the upstream resource are external: a pool is
  verified against any implementation of their interfaces. \<open>fl_get\<close> returns the null
  pointer on a miss; \<open>up_allocate\<close> returns \<open>None\<close> where the upstream throws
  \<^verbatim>\<open>std::bad_alloc\<close>; \<open>push_back_fails\<close> tells whether \<^verbatim>\<open>blocks_.push_back\<close> throws on
  the given list of owned blocks.
\<close>

record ('fl, 'u) collaborators =
  fl_get :: "'fl \<Rightarrow> size_t \<Rightarrow> size_t \<Rightarrow> pointer \<times> 'fl"
  fl_put :: "'fl \<Rightarrow> pointer \<Rightarrow> size_t \<Rightarrow> 'fl"
  fl_remove_if_in_list :: "'fl \<Rightarrow> pointer \<Rightarrow> size_t \<Rightarrow> bool \<times> 'fl"
  fl_clear :: "'fl \<Rightarrow> 'fl"
  up_allocate :: "'u \<Rightarrow> size_t \<Rightarrow> size_t \<Rightarrow> pointer option \<times> 'u"
  up_deallocate :: "'u \<Rightarrow> pointer \<Rightarrow> size_t \<Rightarrow> size_t \<Rightarrow> 'u"
  push_back_fails :: "UpstreamBlock list \<Rightarrow> bool"

subsection \<open>\<^verbatim>\<open>pool_resource_base\<close>\<close>

record ('fl, 'u) pool_resource_base =
  upstream :: 'u
  free_list :: 'fl
  options :: pool_options
  next_block_size_field :: size_t
  blocks :: "UpstreamBlock list"
  cuda :: cuda_runtime

definition kMaxDevices :: int where
  "kMaxDevices = 256"

text \<open>
  The loop of \<^verbatim>\<open>synchronize(span<const dealloc_params>)\<close> for
  \<^verbatim>\<open>sync_scope::device\<close>, with its locals \<^verbatim>\<open>prev\<close> and \<^verbatim>\<open>dev_mask\<close> (eight 32-bit
  words). \<^verbatim>\<open>dev >> 5\<close> and \<^verbatim>\<open>dev & 31\<close> act on a device id that is not negative, and
  \<^verbatim>\<open>1 << (dev & 31)\<close> is the 32-bit word with that one bit set. The result is the runtime
  after the synchronizations of the batch.
\<close>

fun synchronize_loop ::
  "dealloc_params list \<Rightarrow> int \<Rightarrow> 32 word list \<Rightarrow> cuda_runtime \<Rightarrow> cuda_runtime" where
  "synchronize_loop [] prev dev_mask c = c"
| "synchronize_loop (par # params) prev dev_mask c =
     (let dev = (if sync_device par < 0 then cudaGetDevice c else sync_device par) in
      if dev < kMaxDevices then
        (let bin = nat (dev div 32);
             mask = (push_bit (nat (dev mod 32)) 1 :: 32 word) in
         if (dev_mask ! bin) AND mask \<noteq> 0 then synchronize_loop params prev dev_mask c
         else synchronize_loop params dev (dev_mask[bin := (dev_mask ! bin) OR mask])
                (synchronize_on dev c))
      else if dev = prev then synchronize_loop params prev dev_mask c
      else synchronize_loop params dev dev_mask (synchronize_on dev c))"

definition synchronize_span ::
  "dealloc_params list \<Rightarrow> ('fl, 'u, 'z) pool_resource_base_scheme
    \<Rightarrow> ('fl, 'u, 'z) pool_resource_base_scheme" where
  "synchronize_span params st =
     (if sync (options st) = scope_device then
        st\<lparr>cuda := synchronize_loop params (- 1) (replicate 8 0) (cuda st)\<rparr>
      else if sync (options st) = scope_system then
        st\<lparr>cuda := synchronize_all_devices (cuda st)\<rparr>
      else st)"

definition synchronize ::
  "('fl, 'u, 'z) pool_resource_base_scheme \<Rightarrow> ('fl, 'u, 'z) pool_resource_base_scheme" where
  "synchronize st = st\<lparr>cuda := detail_synchronize (sync (options st)) (cuda st)\<rparr>"

fun put_all :: "('fl, 'u) collaborators \<Rightarrow> dealloc_params list \<Rightarrow> 'fl \<Rightarrow> 'fl" where
  "put_all E [] fl = fl"
| "put_all E (par # params) fl = put_all E params (fl_put E fl (dp_ptr par) (dp_bytes par))"

definition bulk_deallocate ::
  "('fl, 'u) collaborators \<Rightarrow> dealloc_params list \<Rightarrow> ('fl, 'u, 'z) pool_resource_base_scheme
    \<Rightarrow> ('fl, 'u, 'z) pool_resource_base_scheme" where
  "bulk_deallocate E params st =
     (if params \<noteq> [] then
        (let st1 = synchronize_span params st
         in st1\<lparr>free_list := put_all E params (free_list st1)\<rparr>)
      else st)"

definition free_all ::
  "('fl, 'u) collaborators \<Rightarrow> ('fl, 'u, 'z) pool_resource_base_scheme
    \<Rightarrow> ('fl, 'u, 'z) pool_resource_base_scheme" where
  "free_all E st =
     st\<lparr>upstream :=
          fold (\<lambda>block u. up_deallocate E u (blk_ptr block) (blk_bytes block) (blk_alignment block))
            (blocks st) (upstream st),
        blocks := [], free_list := fl_clear E (free_list st)\<rparr>"

definition try_allocate_from_free ::
  "('fl, 'u) collaborators \<Rightarrow> ('fl, 'u, 'z) pool_resource_base_scheme \<Rightarrow> size_t \<Rightarrow> size_t
    \<Rightarrow> pointer \<times> ('fl, 'u, 'z) pool_resource_base_scheme" where
  "try_allocate_from_free E st bytes alignment =
     (if bytes = 0 then (0, st)
      else (let (p, fl) = fl_get E (free_list st) bytes alignment
            in (p, st\<lparr>free_list := fl\<rparr>)))"

definition deallocate_no_sync ::
  "('fl, 'u) collaborators \<Rightarrow> ('fl, 'u, 'z) pool_resource_base_scheme \<Rightarrow> pointer \<Rightarrow> size_t
    \<Rightarrow> size_t \<Rightarrow> ('fl, 'u, 'z) pool_resource_base_scheme" where
  "deallocate_no_sync E st p bytes alignment =
     st\<lparr>free_list := fl_put E (free_list st) p bytes\<rparr>"

definition next_block_size ::
  "('fl, 'u, 'z) pool_resource_base_scheme \<Rightarrow> size_t
    \<Rightarrow> size_t \<times> ('fl, 'u, 'z) pool_resource_base_scheme" where
  "next_block_size st upcoming_allocation_size =
     (let actual_block_size =
            max upcoming_allocation_size
                (growth_factor (options st) (next_block_size_field st));
          alignment = (push_bit (nat (max (ilog2 actual_block_size - 10) 12)) 1 :: size_t);
          actual_block_size = align_up actual_block_size alignment
      in (actual_block_size,
          st\<lparr>next_block_size_field := min actual_block_size (max_block_size (options st))\<rparr>))"

definition do_deallocate ::
  "('fl, 'u) collaborators \<Rightarrow> ('fl, 'u, 'z) pool_resource_base_scheme \<Rightarrow> pointer \<Rightarrow> size_t
    \<Rightarrow> size_t \<Rightarrow> ('fl, 'u, 'z) pool_resource_base_scheme" where
  "do_deallocate E st p bytes alignment = deallocate_no_sync E (synchronize st) p bytes alignment"

text \<open>The virtual \<^verbatim>\<open>flush_deferred\<close> of the base class does nothing.\<close>

definition base_flush_deferred :: "'s \<Rightarrow> 's option" where
  "base_flush_deferred st = Some st"

subsection \<open>The upstream acquisition protocol\<close>

text \<open>
  The reclaim pass: \<^verbatim>\<open>removed[i] = free_list_.remove_if_in_list(blk.ptr, blk.bytes)\<close> over
  the owned blocks in index order, then the owned blocks are released from the last index
  down to 0, with \<^verbatim>\<open>erase_at\<close>. The \<^verbatim>\<open>int\<close> counters of the source are taken not to
  overflow (fewer than \<open>2 ^ 31\<close> owned blocks).
\<close>

fun scan_blocks ::
  "('fl, 'u) collaborators \<Rightarrow> UpstreamBlock list \<Rightarrow> 'fl \<Rightarrow> bool list \<times> 'fl" where
  "scan_blocks E [] fl = ([], fl)"
| "scan_blocks E (blk # blks) fl =
     (let (r, fl1) = fl_remove_if_in_list E fl (blk_ptr blk) (blk_bytes blk);
          (rs, fl2) = scan_blocks E blks fl1
      in (r # rs, fl2))"

definition erase_at :: "'a list \<Rightarrow> nat \<Rightarrow> 'a list" where
  "erase_at xs i = take i xs @ drop (Suc i) xs"

text \<open>\<open>release_removed E n removed (blks, u)\<close> runs the indices \<open>n - 1\<close> down to \<open>0\<close>.\<close>

fun release_removed ::
  "('fl, 'u) collaborators \<Rightarrow> nat \<Rightarrow> bool list \<Rightarrow> UpstreamBlock list \<times> 'u
    \<Rightarrow> UpstreamBlock list \<times> 'u" where
  "release_removed E 0 removed (blks, u) = (blks, u)"
| "release_removed E (Suc i) removed (blks, u) =
     (if removed ! i then
        release_removed E i removed
          (erase_at blks i,
           up_deallocate E u (blk_ptr (blks ! i)) (blk_bytes (blks ! i))
             (blk_alignment (blks ! i)))
      else release_removed E i removed (blks, u))"

text \<open>
  One pass through the body of \<^verbatim>\<open>for (;;)\<close> in \<^verbatim>\<open>get_upstream_block\<close>: it leaves the
  loop with the new block (\<open>Break\<close>), rethrows (\<open>Throw\<close>), reaches the end of the handler
  and goes round again (\<open>Retry\<close>), or never comes back from \<^verbatim>\<open>flush_deferred\<close>
  (\<open>Blocked\<close>). \<open>flush\<close> is the \<^verbatim>\<open>flush_deferred\<close> that virtual dispatch selects. The
  upstream either returns a block or throws \<^verbatim>\<open>std::bad_alloc\<close>, the one exception the
  handler catches. \<open>shrink\<close> is the end of the handler:
  \<^verbatim>\<open>blk_size = std::max(min_bytes, blk_size >> 1); next_block_size_ = blk_size;\<close>.
\<close>

datatype 's attempt =
  Retry 's size_t bool
| Break pointer size_t 's
| Throw error 's
| Blocked

definition shrink ::
  "size_t \<Rightarrow> size_t \<Rightarrow> bool \<Rightarrow> ('fl, 'u, 'z) pool_resource_base_scheme
    \<Rightarrow> ('fl, 'u, 'z) pool_resource_base_scheme attempt" where
  "shrink min_bytes blk_size tried_return_to_upstream st =
     (let blk_size = max min_bytes (drop_bit 1 blk_size)
      in Retry (st\<lparr>next_block_size_field := blk_size\<rparr>) blk_size tried_return_to_upstream)"

definition upstream_iteration ::
  "('fl, 'u) collaborators
    \<Rightarrow> (('fl, 'u, 'z) pool_resource_base_scheme \<Rightarrow> ('fl, 'u, 'z) pool_resource_base_scheme option)
    \<Rightarrow> size_t \<Rightarrow> size_t \<Rightarrow> ('fl, 'u, 'z) pool_resource_base_scheme \<Rightarrow> size_t \<Rightarrow> bool
    \<Rightarrow> ('fl, 'u, 'z) pool_resource_base_scheme attempt" where
  "upstream_iteration E flush min_bytes alignment st blk_size tried_return_to_upstream =
     (case up_allocate E (upstream st) blk_size alignment of
        (Some new_block, u) \<Rightarrow> Break new_block blk_size (st\<lparr>upstream := u\<rparr>)
      | (None, u) \<Rightarrow>
          (case flush (st\<lparr>upstream := u\<rparr>) of
             None \<Rightarrow> Blocked
           | Some st1 \<Rightarrow>
               if \<not> try_smaller_on_failure (options st1) then Throw bad_alloc st1
               else if blk_size = min_bytes then
                 (if tried_return_to_upstream \<or> \<not> return_to_upstream_on_failure (options st1)
                  then Throw bad_alloc st1
                  else if blocks st1 = [] then Throw bad_alloc st1
                  else
                    (let (removed, fl) = scan_blocks E (blocks st1) (free_list st1);
                         blocks_freed = length (filter (\<lambda>r. r) removed);
                         st2 = st1\<lparr>free_list := fl\<rparr>
                     in if blocks_freed = 0 then Throw bad_alloc st2
                        else
                          (let (blks, u2) =
                                 release_removed E (length (blocks st2)) removed
                                   (blocks st2, upstream st2)
                           in shrink min_bytes blk_size True
                                (st2\<lparr>blocks := blks, upstream := u2\<rparr>))))
               else shrink min_bytes blk_size tried_return_to_upstream st1))"

text \<open>The quantity that every \<open>Retry\<close> decreases.\<close>

definition loop_measure :: "size_t \<Rightarrow> size_t \<Rightarrow> bool \<Rightarrow> nat" where
  "loop_measure min_bytes blk_size tried_return_to_upstream =
     (if tried_return_to_upstream then 0 else 2 ^ 64 + 1)
     + (if blk_size < min_bytes then 2 ^ 64 else unat blk_size - unat min_bytes)"

lemma shrink_Retry:
  "shrink min_bytes blk_size t st = Retry st' blk_size' t' \<Longrightarrow>
     blk_size' = max min_bytes (drop_bit 1 blk_size) \<and> t' = t
     \<and> st' = st\<lparr>next_block_size_field := blk_size'\<rparr>"
  by (auto simp: shrink_def Let_def)

lemma upstream_iteration_Retry:
  assumes "upstream_iteration E flush min_bytes alignment st blk_size t = Retry st' blk_size' t'"
  shows "blk_size' = max min_bytes (drop_bit 1 blk_size)
         \<and> (if blk_size = min_bytes then \<not> t \<and> t' else t' = t)"
  using assms
  by (auto simp: upstream_iteration_def Let_def
           split: prod.splits option.splits if_splits dest!: shrink_Retry)

lemma drop_bit_1_less:
  fixes w :: size_t
  assumes "w \<noteq> 0"
  shows "drop_bit 1 w < w"
proof -
  have "unat w \<noteq> 0" using assms by (simp add: unat_eq_0)
  then have "unat w div 2 < unat w" by simp
  then show ?thesis by (simp add: word_less_nat_alt unat_drop_bit_eq drop_bit_eq_div unat_div)
qed

lemma loop_measure_decreases:
  assumes "upstream_iteration E flush min_bytes alignment st blk_size t = Retry st' blk_size' t'"
  shows "loop_measure min_bytes blk_size' t' < loop_measure min_bytes blk_size t"
proof -
  from upstream_iteration_Retry [OF assms]
  have blk': "blk_size' = max min_bytes (drop_bit 1 blk_size)"
    and t': "if blk_size = min_bytes then \<not> t \<and> t' else t' = t"
    by simp_all
  have ge: "\<not> blk_size' < min_bytes" by (simp add: blk' not_less)
  show ?thesis
  proof (cases "blk_size = min_bytes")
    case True
    with t' have "\<not> t" "t'" by simp_all
    moreover have "drop_bit 1 blk_size \<le> blk_size"
      by (simp add: word_le_nat_alt unat_drop_bit_eq drop_bit_eq_div unat_div)
    with True have "blk_size' = blk_size" by (simp add: blk' max_def)
    ultimately show ?thesis using True by (simp add: loop_measure_def)
  next
    case False
    with t' have tt: "t' = t" by simp
    show ?thesis
    proof (cases "blk_size < min_bytes")
      case True
      have "drop_bit 1 blk_size \<le> blk_size"
        by (simp add: word_le_nat_alt unat_drop_bit_eq drop_bit_eq_div unat_div)
      with True have "drop_bit 1 blk_size < min_bytes" by (meson le_less_trans)
      then have "blk_size' = min_bytes" unfolding blk' by (rule max_absorb1 [OF less_imp_le])
      with True tt show ?thesis by (simp add: loop_measure_def)
    next
      case ge0: False
      with False have gt: "min_bytes < blk_size" by simp
      then have "blk_size \<noteq> 0" by (metis word_not_simps(1))
      then have "drop_bit 1 blk_size < blk_size" by (rule drop_bit_1_less)
      with gt have lt: "blk_size' < blk_size" by (simp add: blk' max_def)
      have "min_bytes \<le> blk_size'" using ge by simp
      with lt gt have "unat blk_size' - unat min_bytes < unat blk_size - unat min_bytes"
        by (simp add: word_less_nat_alt word_le_nat_alt)
      with ge ge0 tt show ?thesis by (simp add: loop_measure_def)
    qed
  qed
qed

function upstream_loop ::
  "('fl, 'u) collaborators
    \<Rightarrow> (('fl, 'u, 'z) pool_resource_base_scheme \<Rightarrow> ('fl, 'u, 'z) pool_resource_base_scheme option)
    \<Rightarrow> size_t \<Rightarrow> size_t \<Rightarrow> ('fl, 'u, 'z) pool_resource_base_scheme \<Rightarrow> size_t \<Rightarrow> bool
    \<Rightarrow> ('fl, 'u, 'z) pool_resource_base_scheme attempt" where
  "upstream_loop E flush min_bytes alignment st blk_size tried_return_to_upstream =
     (case upstream_iteration E flush min_bytes alignment st blk_size tried_return_to_upstream of
        Retry st' blk_size' tried' \<Rightarrow> upstream_loop E flush min_bytes alignment st' blk_size' tried'
      | Break new_block blk_size' st' \<Rightarrow> Break new_block blk_size' st'
      | Throw e st' \<Rightarrow> Throw e st'
      | Blocked \<Rightarrow> Blocked)"
  by pat_completeness auto
termination
  by (relation "measure (\<lambda>(E, flush, min_bytes, alignment, st, blk_size, t).
                  loop_measure min_bytes blk_size t)")
     (auto dest: loop_measure_decreases)

declare upstream_loop.simps [simp del]

text \<open>
  The requests of one call, for stating what the iterations do: the pairs
  (\<^verbatim>\<open>blk_size\<close>, \<^verbatim>\<open>tried_return_to_upstream\<close>) at each \<^verbatim>\<open>upstream_->allocate\<close>, in order.
\<close>

function upstream_requests ::
  "('fl, 'u) collaborators
    \<Rightarrow> (('fl, 'u, 'z) pool_resource_base_scheme \<Rightarrow> ('fl, 'u, 'z) pool_resource_base_scheme option)
    \<Rightarrow> size_t \<Rightarrow> size_t \<Rightarrow> ('fl, 'u, 'z) pool_resource_base_scheme \<Rightarrow> size_t \<Rightarrow> bool
    \<Rightarrow> (size_t \<times> bool) list" where
  "upstream_requests E flush min_bytes alignment st blk_size tried_return_to_upstream =
     (blk_size, tried_return_to_upstream) #
     (case upstream_iteration E flush min_bytes alignment st blk_size tried_return_to_upstream of
        Retry st' blk_size' tried' \<Rightarrow>
          upstream_requests E flush min_bytes alignment st' blk_size' tried'
      | Break new_block blk_size' st' \<Rightarrow> []
      | Throw e st' \<Rightarrow> []
      | Blocked \<Rightarrow> [])"
  by pat_completeness auto
termination
  by (relation "measure (\<lambda>(E, flush, min_bytes, alignment, st, blk_size, t).
                  loop_measure min_bytes blk_size t)")
     (auto dest: loop_measure_decreases)

declare upstream_requests.simps [simp del]

text \<open>
  \<^verbatim>\<open>get_upstream_block\<close>: the result is \<open>None\<close> when the call never returns, otherwise
  the exception or the pair of the new block and \<^verbatim>\<open>blk_size\<close> (the reference parameter),
  with the pool after the call.
\<close>

definition get_upstream_block ::
  "('fl, 'u) collaborators
    \<Rightarrow> (('fl, 'u, 'z) pool_resource_base_scheme \<Rightarrow> ('fl, 'u, 'z) pool_resource_base_scheme option)
    \<Rightarrow> ('fl, 'u, 'z) pool_resource_base_scheme \<Rightarrow> size_t \<Rightarrow> size_t
    \<Rightarrow> ((error + pointer \<times> size_t) \<times> ('fl, 'u, 'z) pool_resource_base_scheme) option" where
  "get_upstream_block E flush st min_bytes alignment =
     (let (blk_size, st0) = next_block_size st min_bytes
      in case upstream_loop E flush min_bytes alignment st0 blk_size False of
           Blocked \<Rightarrow> None
         | Retry st1 blk_size1 t \<Rightarrow> None
         | Throw e st1 \<Rightarrow> Some (Inl e, st1)
         | Break new_block blk_size1 st1 \<Rightarrow>
             if push_back_fails E (blocks st1) then
               Some (Inl push_back_failed,
                     st1\<lparr>upstream := up_deallocate E (upstream st1) new_block blk_size1 alignment\<rparr>)
             else
               Some (Inr (new_block, blk_size1),
                     st1\<lparr>blocks := blocks st1 @
                        [\<lparr>blk_ptr = new_block, blk_bytes = blk_size1,
                          blk_alignment = alignment\<rparr>]\<rparr>))"

text \<open>
  \<^verbatim>\<open>do_allocate\<close>: the result is the pointer or the exception. \<^verbatim>\<open>assert(new_block)\<close> is
  kept as a failure of its own.
\<close>

definition do_allocate ::
  "('fl, 'u) collaborators
    \<Rightarrow> (('fl, 'u, 'z) pool_resource_base_scheme \<Rightarrow> ('fl, 'u, 'z) pool_resource_base_scheme option)
    \<Rightarrow> ('fl, 'u, 'z) pool_resource_base_scheme \<Rightarrow> size_t \<Rightarrow> size_t
    \<Rightarrow> ((error + pointer) \<times> ('fl, 'u, 'z) pool_resource_base_scheme) option" where
  "do_allocate E flush st bytes alignment =
     (if bytes = 0 then Some (Inr 0, st)
      else
        (let (p, fl) = fl_get E (free_list st) bytes alignment;
             st1 = st\<lparr>free_list := fl\<rparr>
         in if p \<noteq> 0 then Some (Inr p, st1)
            else
              (let alignment = max alignment (upstream_alignment (options st1))
               in case get_upstream_block E flush st1 bytes alignment of
                    None \<Rightarrow> None
                  | Some (Inl e, st2) \<Rightarrow> Some (Inl e, st2)
                  | Some (Inr (new_block, blk_size), st2) \<Rightarrow>
                      if new_block = 0 then Some (Inl assertion_failed, st2)
                      else if blk_size = bytes then Some (Inr new_block, st2)
                      else
                        Some (Inr new_block,
                              st2\<lparr>free_list :=
                                fl_put E (free_list st2) (new_block + bytes)
                                  (blk_size - bytes)\<rparr>))))"

subsection \<open>\<^verbatim>\<open>deferred_dealloc_pool\<close>\<close>

text \<open>
  The derived class adds the two queues \<^verbatim>\<open>deallocs_[2]\<close>, the index of the queue that
  producers fill, the flags, and the worker thread. \<open>worker\<close> is where the thread of
  \<^verbatim>\<open>run()\<close> stands: not yet created, \<open>idle\<close> (at the head of its loop or in
  \<^verbatim>\<open>cv_.wait\<close>), \<open>draining k\<close> (it has taken queue \<open>k\<close> as \<^verbatim>\<open>to_free\<close>, flipped the index
  and released \<^verbatim>\<open>mtx_\<close>), or returned from \<^verbatim>\<open>run()\<close>.
\<close>

datatype worker_state = not_started | idle | draining nat | exited

record ('fl, 'u) deferred_dealloc_pool = "('fl, 'u) pool_resource_base" +
  deallocs :: "dealloc_params list list"
  queue_idx :: nat
  started :: bool
  stopped :: bool
  worker :: worker_state

definition start_worker ::
  "('fl, 'u, 'z) deferred_dealloc_pool_scheme \<Rightarrow> ('fl, 'u, 'z) deferred_dealloc_pool_scheme" where
  "start_worker st = st\<lparr>worker := idle, started := True\<rparr>"

definition deferred_deallocate ::
  "('fl, 'u, 'z) deferred_dealloc_pool_scheme \<Rightarrow> pointer \<Rightarrow> size_t \<Rightarrow> size_t \<Rightarrow> int
    \<Rightarrow> ('fl, 'u, 'z) deferred_dealloc_pool_scheme" where
  "deferred_deallocate st p bytes alignment device_id =
     (if p = 0 \<or> bytes = 0 then st
      else
        (let device_id = (if device_id < 0 then cudaGetDevice (cuda st) else device_id);
             st1 = st\<lparr>deallocs := (deallocs st)[queue_idx st :=
                      (deallocs st ! queue_idx st) @
                        [\<lparr>sync_device = device_id, dp_ptr = p, dp_bytes = bytes,
                          dp_alignment = alignment\<rparr>]]\<rparr>
         in if \<not> started st1 then start_worker st1 else st1))"

text \<open>
  \<^verbatim>\<open>outstanding_dealloc_count\<close> returns the \<^verbatim>\<open>size_t\<close> sum of the two sizes as an
  \<^verbatim>\<open>int\<close>: the low 32 bits, read as signed.
\<close>

definition outstanding_dealloc_count :: "('fl, 'u, 'z) deferred_dealloc_pool_scheme \<Rightarrow> int" where
  "outstanding_dealloc_count st =
     sint (word_of_nat (length (deallocs st ! 0) + length (deallocs st ! 1)) :: 32 word)"

definition no_pending_deallocs :: "('fl, 'u, 'z) deferred_dealloc_pool_scheme \<Rightarrow> bool" where
  "no_pending_deallocs st \<longleftrightarrow> deallocs st ! 0 = [] \<and> deallocs st ! 1 = []"

text \<open>
  \<^verbatim>\<open>flush_deferred\<close>: \<open>wait\<close> is \<^verbatim>\<open>ready_.wait(ulock)\<close>, which gives the pool as the
  other threads have left it when the caller wakes up, or \<open>None\<close> when it never does.
\<close>

definition flush_deferred ::
  "(('fl, 'u, 'z) deferred_dealloc_pool_scheme \<Rightarrow> ('fl, 'u, 'z) deferred_dealloc_pool_scheme option)
    \<Rightarrow> ('fl, 'u, 'z) deferred_dealloc_pool_scheme
    \<Rightarrow> ('fl, 'u, 'z) deferred_dealloc_pool_scheme option" where
  "flush_deferred wait st =
     (if \<not> no_pending_deallocs st then
        (if \<not> no_pending_deallocs st then wait st else Some st)
      else Some st)"

definition deferred_do_allocate ::
  "('fl, 'u) collaborators
    \<Rightarrow> (('fl, 'u, 'z) deferred_dealloc_pool_scheme \<Rightarrow> ('fl, 'u, 'z) deferred_dealloc_pool_scheme option)
    \<Rightarrow> ('fl, 'u, 'z) deferred_dealloc_pool_scheme \<Rightarrow> size_t \<Rightarrow> size_t
    \<Rightarrow> ((error + pointer) \<times> ('fl, 'u, 'z) deferred_dealloc_pool_scheme) option" where
  "deferred_do_allocate E wait st bytes alignment =
     (case (if enable_deferred_deallocation (options st)
              \<and> outstanding_dealloc_count st > max_outstanding_deallocations (options st)
            then flush_deferred wait st else Some st) of
        None \<Rightarrow> None
      | Some st1 \<Rightarrow> do_allocate E (flush_deferred wait) st1 bytes alignment)"

definition deferred_do_deallocate ::
  "('fl, 'u) collaborators \<Rightarrow> ('fl, 'u, 'z) deferred_dealloc_pool_scheme \<Rightarrow> pointer \<Rightarrow> size_t
    \<Rightarrow> size_t \<Rightarrow> ('fl, 'u, 'z) deferred_dealloc_pool_scheme" where
  "deferred_do_deallocate E st p bytes alignment =
     (if enable_deferred_deallocation (options st)
      then deferred_deallocate st p bytes alignment (- 1)
      else do_deallocate E st p bytes alignment)"

subsection \<open>The worker thread\<close>

definition is_stopped :: "('fl, 'u, 'z) deferred_dealloc_pool_scheme \<Rightarrow> bool" where
  "is_stopped st = stopped st"

text \<open>The predicate of \<^verbatim>\<open>cv_.wait(ulock, [&]() { ... })\<close> in \<^verbatim>\<open>run()\<close>, as written.\<close>

definition run_wait_predicate :: "('fl, 'u, 'z) deferred_dealloc_pool_scheme \<Rightarrow> bool" where
  "run_wait_predicate st \<longleftrightarrow> \<not> stopped st \<or> deallocs st ! queue_idx st = []"

text \<open>
  One step of the thread. From \<open>idle\<close>: the loop test, the wait (the thread stays where
  it is while the predicate is false), the second test, then
  \<^verbatim>\<open>to_free = deallocs_[queue_idx_]; queue_idx_ = 1 - queue_idx_; ulock.unlock()\<close>.
  From \<open>draining k\<close>: \<^verbatim>\<open>bulk_deallocate(to_free); to_free.clear(); ready_.notify_one();
  ulock.lock()\<close>. A step reads the flags once: no other thread writes them meanwhile.
\<close>

definition run_step ::
  "('fl, 'u) collaborators \<Rightarrow> ('fl, 'u, 'z) deferred_dealloc_pool_scheme
    \<Rightarrow> ('fl, 'u, 'z) deferred_dealloc_pool_scheme" where
  "run_step E st =
     (case worker st of
        idle \<Rightarrow>
          if is_stopped st then st\<lparr>worker := exited\<rparr>
          else if \<not> run_wait_predicate st then st
          else if is_stopped st then st\<lparr>worker := exited\<rparr>
          else st\<lparr>queue_idx := 1 - queue_idx st, worker := draining (queue_idx st)\<rparr>
      | draining k \<Rightarrow>
          (let st1 = bulk_deallocate E (deallocs st ! k) st
           in st1\<lparr>deallocs := (deallocs st1)[k := []], worker := idle\<rparr>)
      | not_started \<Rightarrow> st
      | exited \<Rightarrow> st)"

text \<open>
  A schedule for \<^verbatim>\<open>ready_.wait\<close>: while the caller is blocked only the worker runs, and
  the caller wakes at the worker's next \<^verbatim>\<open>ready_.notify_one()\<close>, that is when the worker
  next completes a \<open>draining\<close> step. A worker that is not running never notifies.
\<close>

definition await_ready ::
  "('fl, 'u) collaborators \<Rightarrow> ('fl, 'u, 'z) deferred_dealloc_pool_scheme
    \<Rightarrow> ('fl, 'u, 'z) deferred_dealloc_pool_scheme option" where
  "await_ready E st =
     (case worker st of
        draining k \<Rightarrow> Some (run_step E st)
      | idle \<Rightarrow>
          (case worker (run_step E st) of
             draining k \<Rightarrow> Some (run_step E (run_step E st))
           | _ \<Rightarrow> None)
      | _ \<Rightarrow> None)"

subsection \<open>Test doubles\<close>

text \<open>
  A free list and an upstream resource to run the pool on, as in the mock-upstream
  scenarios. The free list keeps its regions in a list, takes the first region that is
  large enough (leaving the tail) and does not coalesce. The upstream hands out
  consecutive addresses and refuses a request that would bring the total it has
  outstanding above \<open>cap\<close> bytes.
\<close>

type_synonym region = "pointer \<times> size_t"

fun test_get :: "region list \<Rightarrow> size_t \<Rightarrow> size_t \<Rightarrow> pointer \<times> region list" where
  "test_get [] bytes alignment = (0, [])"
| "test_get ((p, n) # fl) bytes alignment =
     (if bytes \<le> n then (p, if n = bytes then fl else (p + bytes, n - bytes) # fl)
      else (let (q, fl') = test_get fl bytes alignment in (q, (p, n) # fl')))"

definition test_put :: "region list \<Rightarrow> pointer \<Rightarrow> size_t \<Rightarrow> region list" where
  "test_put fl p n = fl @ [(p, n)]"

definition test_remove_if_in_list :: "region list \<Rightarrow> pointer \<Rightarrow> size_t \<Rightarrow> bool \<times> region list" where
  "test_remove_if_in_list fl p n = (if (p, n) \<in> set fl then (True, remove1 (p, n) fl) else (False, fl))"

record test_upstream =
  next_address :: pointer
  live :: "region list"

definition test_allocate ::
  "nat \<Rightarrow> test_upstream \<Rightarrow> size_t \<Rightarrow> size_t \<Rightarrow> pointer option \<times> test_upstream" where
  "test_allocate cap u bytes alignment =
     (if sum_list (map (\<lambda>r. unat (snd r)) (live u)) + unat bytes \<le> cap then
        (Some (next_address u),
         u\<lparr>next_address := next_address u + bytes, live := live u @ [(next_address u, bytes)]\<rparr>)
      else (None, u))"

definition test_deallocate ::
  "test_upstream \<Rightarrow> pointer \<Rightarrow> size_t \<Rightarrow> size_t \<Rightarrow> test_upstream" where
  "test_deallocate u p bytes alignment = u\<lparr>live := remove1 (p, bytes) (live u)\<rparr>"

definition test_collaborators :: "nat \<Rightarrow> bool \<Rightarrow> (region list, test_upstream) collaborators" where
  "test_collaborators cap full =
     \<lparr>fl_get = test_get, fl_put = test_put,
      fl_remove_if_in_list = test_remove_if_in_list, fl_clear = (\<lambda>fl. []),
      up_allocate = test_allocate cap, up_deallocate = test_deallocate,
      push_back_fails = (\<lambda>blks. full)\<rparr>"

text \<open>
  \<^verbatim>\<open>default_host_pool_opts()\<close> with a growth factor of 2 (exact on the sizes used below),
  and a pool as its constructor leaves it, on a system with eight devices.
\<close>

definition test_options :: pool_options where
  "test_options =
     \<lparr>max_block_size = 2 ^ 28, min_block_size = 2 ^ 12, growth_factor = (\<lambda>n. 2 * n),
      try_smaller_on_failure = True, return_to_upstream_on_failure = True,
      sync = scope_none, enable_deferred_deallocation = False,
      max_outstanding_deallocations = 16, upstream_alignment = 256\<rparr>"

definition test_cuda :: cuda_runtime where
  "test_cuda = \<lparr>current_device = 0, device_count = 8, synchronized = []\<rparr>"

definition test_pool :: "pool_options \<Rightarrow> (region list, test_upstream) pool_resource_base" where
  "test_pool opt =
     \<lparr>upstream = \<lparr>next_address = 65536, live = []\<rparr>, free_list = [], options = opt,
      next_block_size_field = min_block_size opt, blocks = [], cuda = test_cuda\<rparr>"

definition test_deferred_pool ::
  "pool_options \<Rightarrow> (region list, test_upstream) deferred_dealloc_pool" where
  "test_deferred_pool opt =
     \<lparr>upstream = \<lparr>next_address = 65536, live = []\<rparr>, free_list = [], options = opt,
      next_block_size_field = min_block_size opt, blocks = [], cuda = test_cuda,
      deallocs = [[], []], queue_idx = 0, started = False, stopped = False,
      worker = not_started\<rparr>"

subsection \<open>Notions for stating the claims\<close>

text \<open>
  The device ids of a batch as the loop of \<^verbatim>\<open>synchronize\<close> sees them: a negative
  \<^verbatim>\<open>sync_device\<close> stands for the current device.
\<close>

definition resolved_devices :: "cuda_runtime \<Rightarrow> dealloc_params list \<Rightarrow> int list" where
  "resolved_devices c params =
     map (\<lambda>par. if sync_device par < 0 then cudaGetDevice c else sync_device par) params"

text \<open>
  The deduplication in the words of the specification: ids below 256 are remembered in a
  set, an id of 256 or more is only compared with the device synchronized last. The
  result lists the devices to synchronize, in order.
\<close>

fun dedup_devices :: "int set \<Rightarrow> int \<Rightarrow> int list \<Rightarrow> int list" where
  "dedup_devices seen prev [] = []"
| "dedup_devices seen prev (d # ds) =
     (if d < 256 then
        (if d \<in> seen then dedup_devices seen prev ds
         else d # dedup_devices (insert d seen) d ds)
      else if d = prev then dedup_devices seen prev ds
      else d # dedup_devices seen d ds)"

text \<open>The elements of a list in the order of their first occurrence, each once.\<close>

primrec first_occurrences :: "'a list \<Rightarrow> 'a list" where
  "first_occurrences [] = []"
| "first_occurrences (x # xs) = x # filter (\<lambda>y. y \<noteq> x) (first_occurrences xs)"

text \<open>What the bit mask \<^verbatim>\<open>dev_mask\<close> holds: bit \<open>d mod 32\<close> of word \<open>d div 32\<close> for each \<open>d\<close> seen.\<close>

definition dev_mask_holds :: "32 word list \<Rightarrow> int set \<Rightarrow> bool" where
  "dev_mask_holds dev_mask seen \<longleftrightarrow>
     length dev_mask = 8 \<and>
     (\<forall>d. 0 \<le> d \<and> d < 256 \<longrightarrow>
        (bit (dev_mask ! nat (d div 32)) (nat (d mod 32)) \<longleftrightarrow> d \<in> seen))"

text \<open>A deallocation of 64 bytes at a fixed address, to be synchronized with \<open>dev\<close>.\<close>

definition on_device :: "int \<Rightarrow> dealloc_params" where
  "on_device dev = \<lparr>sync_device = dev, dp_ptr = 65536, dp_bytes = 64, dp_alignment = 8\<rparr>"

text \<open>
  How one request of the acquisition loop may follow another: the size shrinks, or a
  reclaim pass has run and the size stays, or a request below \<open>min_bytes\<close> is raised to
  \<open>min_bytes\<close>.
\<close>

definition request_step :: "size_t \<Rightarrow> size_t \<times> bool \<Rightarrow> size_t \<times> bool \<Rightarrow> bool" where
  "request_step min_bytes r r' \<longleftrightarrow>
     (fst r' < fst r \<and> snd r' = snd r)
     \<or> (snd r' \<and> \<not> snd r \<and> fst r' = fst r)
     \<or> (fst r < min_bytes \<and> fst r' = min_bytes \<and> snd r' = snd r)"

text \<open>
  Pools for the scenarios: one that owns a single block of 8 KiB, entirely free, taken
  from an upstream that caps the total outstanding; one whose upstream has 4 KiB
  outstanding for another user; and a fresh pool whose cursor starts at 8 KiB.
\<close>

definition scenario_pool :: "(region list, test_upstream) pool_resource_base" where
  "scenario_pool =
     (test_pool test_options)
       \<lparr>upstream := \<lparr>next_address = 73728, live = [(65536, 8192)]\<rparr>,
        free_list := [(65536, 8192)], next_block_size_field := 8192,
        blocks := [\<lparr>blk_ptr = 65536, blk_bytes = 8192, blk_alignment = 256\<rparr>]\<rparr>"

definition exhausted_pool :: "(region list, test_upstream) pool_resource_base" where
  "exhausted_pool =
     (test_pool test_options)\<lparr>upstream := \<lparr>next_address = 65536, live = [(4096, 4096)]\<rparr>\<rparr>"

definition pinned_pool :: "(region list, test_upstream) pool_resource_base" where
  "pinned_pool = test_pool (test_options\<lparr>min_block_size := 8192\<rparr>)"

text \<open>The number of entries in the two queues.\<close>

definition queued :: "('fl, 'u, 'z) deferred_dealloc_pool_scheme \<Rightarrow> nat" where
  "queued st = length (deallocs st ! 0) + length (deallocs st ! 1)"

text \<open>
  The states of a running deferred pool, as far as the queues and the worker go: the
  worker drains the queue that producers do not fill, and when it is idle that queue is
  empty; before the first deallocation both queues are empty.
\<close>

definition worker_consistent :: "('fl, 'u, 'z) deferred_dealloc_pool_scheme \<Rightarrow> bool" where
  "worker_consistent st \<longleftrightarrow>
     length (deallocs st) = 2 \<and> queue_idx st < 2 \<and> \<not> stopped st \<and>
     (case worker st of
        not_started \<Rightarrow> deallocs st ! 0 = [] \<and> deallocs st ! 1 = []
      | idle \<Rightarrow> deallocs st ! (1 - queue_idx st) = []
      | draining k \<Rightarrow> k = 1 - queue_idx st
      | exited \<Rightarrow> False)"

text \<open>
  Deferred pools with a threshold of 2 outstanding deallocations. \<open>four_regions_pool\<close>
  has handed out four regions of 64 bytes (at 65536, 65600, 65664 and 65728).
  \<open>backpressure_pool\<close> has then taken three deallocations without any step of the worker.
  \<open>backlog_pool\<close> has taken one deallocation, which the worker has started to drain, and
  three more while it drains.
\<close>

definition deferred_options :: pool_options where
  "deferred_options =
     test_options\<lparr>enable_deferred_deallocation := True, max_outstanding_deallocations := 2\<rparr>"

definition allocated :: "(region list, test_upstream) deferred_dealloc_pool
    \<Rightarrow> (region list, test_upstream) deferred_dealloc_pool" where
  "allocated st =
     snd (the (deferred_do_allocate (test_collaborators 100000 False)
                 (await_ready (test_collaborators 100000 False)) st 64 8))"

definition four_regions_pool :: "(region list, test_upstream) deferred_dealloc_pool" where
  "four_regions_pool = allocated (allocated (allocated (allocated (test_deferred_pool deferred_options))))"

definition backpressure_pool :: "(region list, test_upstream) deferred_dealloc_pool" where
  "backpressure_pool =
     (let E = test_collaborators 100000 False;
          s1 = deferred_do_deallocate E four_regions_pool 65536 64 8;
          s2 = deferred_do_deallocate E s1 65600 64 8
      in deferred_do_deallocate E s2 65664 64 8)"

definition backlog_pool :: "(region list, test_upstream) deferred_dealloc_pool" where
  "backlog_pool =
     (let E = test_collaborators 100000 False;
          s1 = deferred_do_deallocate E four_regions_pool 65536 64 8;
          s2 = run_step E s1;
          s3 = deferred_do_deallocate E s2 65600 64 8;
          s4 = deferred_do_deallocate E s3 65664 64 8
      in deferred_do_deallocate E s4 65728 64 8)"

section \<open>Evaluation on the test doubles\<close>

lemma ilog2_nat_eq: "2 ^ k \<le> n \<Longrightarrow> n < 2 ^ Suc k \<Longrightarrow> ilog2_nat n = k"
proof (induction k arbitrary: n)
  case 0
  then have "n = 1" by simp
  then show ?case by (simp add: ilog2_nat.simps)
next
  case (Suc k)
  have "2 ^ k \<le> n div 2" using Suc.prems(1) by simp
  moreover have "n div 2 < 2 ^ Suc k" using Suc.prems(2) by simp
  ultimately have "ilog2_nat (n div 2) = k" by (rule Suc.IH)
  moreover have "(2::nat) \<le> 2 ^ Suc k" by simp
  then have "\<not> n < 2" using Suc.prems(1) by linarith
  ultimately show ?case by (subst ilog2_nat.simps) simp
qed

lemma ilog2_8192: "ilog2 8192 = 13"
  using ilog2_nat_eq [of 13 8192] by (simp add: ilog2_def)

lemma align_up_8192: "align_up 8192 4096 = 8192"
  by (simp add: align_up_def round_up_def)

lemmas test_defs = test_pool_def test_options_def test_collaborators_def test_cuda_def
  test_allocate_def test_deallocate_def test_put_def test_remove_if_in_list_def

lemmas eval_upstream = get_upstream_block_def next_block_size_def Let_def ilog2_8192
  align_up_8192 upstream_loop.simps upstream_iteration_def test_defs base_flush_deferred_def

lemma ilog2_eq:
  assumes "2 ^ k \<le> unat x" "unat x < 2 ^ Suc k"
  shows "ilog2 x = int k"
  using ilog2_nat_eq [OF assms] by (simp add: ilog2_def)

lemma ilog2_16384: "ilog2 16384 = 14"
  using ilog2_eq [of 14 "16384 :: size_t"] by simp

lemma align_up_16384: "align_up 16384 4096 = 16384"
  by (simp add: align_up_def round_up_def)

lemma ilog2_max_word: "ilog2 18446744073709551615 = 63"
  using ilog2_eq [of 63 "18446744073709551615 :: size_t"] by simp

lemma align_up_max_word: "align_up 18446744073709551615 9007199254740992 = 0"
  by (simp add: align_up_def round_up_def)

lemmas eval_loop = get_upstream_block_def next_block_size_def Let_def
  upstream_loop.simps upstream_requests.simps upstream_iteration_def shrink_def erase_at_def
  test_defs base_flush_deferred_def

lemmas eval_deferred = deferred_do_allocate_def deferred_do_deallocate_def deferred_deallocate_def
  flush_deferred_def no_pending_deallocs_def outstanding_dealloc_count_def await_ready_def
  run_step_def is_stopped_def run_wait_predicate_def start_worker_def bulk_deallocate_def
  synchronize_span_def do_allocate_def cudaGetDevice_def test_deferred_pool_def
  deferred_options_def

lemma four_regions_pool_eq:
  "four_regions_pool =
     (test_deferred_pool deferred_options)
       \<lparr>upstream := \<lparr>next_address = 73728, live = [(65536, 8192)]\<rparr>,
        free_list := [(65792, 7936)], next_block_size_field := 8192,
        blocks := [\<lparr>blk_ptr = 65536, blk_bytes = 8192, blk_alignment = 256\<rparr>]\<rparr>"
  by (simp add: four_regions_pool_def allocated_def eval_deferred eval_loop ilog2_8192 align_up_8192)

lemma backpressure_pool_eq:
  "backpressure_pool =
     four_regions_pool
       \<lparr>deallocs :=
          [[\<lparr>sync_device = 0, dp_ptr = 65536, dp_bytes = 64, dp_alignment = 8\<rparr>,
            \<lparr>sync_device = 0, dp_ptr = 65600, dp_bytes = 64, dp_alignment = 8\<rparr>,
            \<lparr>sync_device = 0, dp_ptr = 65664, dp_bytes = 64, dp_alignment = 8\<rparr>], []],
        started := True, worker := idle\<rparr>"
  by (simp add: backpressure_pool_def four_regions_pool_eq eval_deferred test_defs Let_def)

lemma backlog_pool_eq:
  "backlog_pool =
     four_regions_pool
       \<lparr>deallocs :=
          [[\<lparr>sync_device = 0, dp_ptr = 65536, dp_bytes = 64, dp_alignment = 8\<rparr>],
           [\<lparr>sync_device = 0, dp_ptr = 65600, dp_bytes = 64, dp_alignment = 8\<rparr>,
            \<lparr>sync_device = 0, dp_ptr = 65664, dp_bytes = 64, dp_alignment = 8\<rparr>,
            \<lparr>sync_device = 0, dp_ptr = 65728, dp_bytes = 64, dp_alignment = 8\<rparr>]],
        queue_idx := 1, started := True, worker := draining 0\<rparr>"
  by (simp add: backlog_pool_def four_regions_pool_eq eval_deferred test_defs Let_def)

lemma backpressure_run:
  "deferred_do_allocate (test_collaborators 100000 False)
     (await_ready (test_collaborators 100000 False)) backpressure_pool 64 8
   = Some (Inr 65792,
       backpressure_pool\<lparr>free_list := [(65856, 7872), (65536, 64), (65600, 64), (65664, 64)],
          deallocs := [[], []], queue_idx := 1\<rparr>)"
  by (simp add: backpressure_pool_eq four_regions_pool_eq eval_deferred test_defs Let_def)

section \<open>Allocation from upstream\<close>

text \<open>
  C1. An \<^verbatim>\<open>allocate(bytes, alignment)\<close> with \<open>bytes > 0\<close> that misses the free list (the
  free list returns the null pointer) and acquires the upstream block \<open>new_block\<close> of
  size \<open>blk_size\<close>: if \<open>blk_size = bytes\<close> it returns the block and leaves the pool as
  \<^verbatim>\<open>get_upstream_block\<close> left it, so nothing is put in the free list; if
  \<open>blk_size > bytes\<close> it puts the region \<open>(new_block + bytes, blk_size - bytes)\<close> in the
  free list and returns the block. The alignment passed upstream is the larger of the
  requested one and \<^verbatim>\<open>upstream_alignment\<close>.
\<close>

theorem do_allocate_from_upstream:
  assumes "bytes \<noteq> 0"
    and "fl_get E (free_list st) bytes alignment = (0, fl)"
    and "get_upstream_block E flush (st\<lparr>free_list := fl\<rparr>) bytes
           (max alignment (upstream_alignment (options st)))
         = Some (Inr (new_block, blk_size), st2)"
    and "new_block \<noteq> 0"
  shows "(blk_size = bytes \<longrightarrow>
            do_allocate E flush st bytes alignment = Some (Inr new_block, st2))
       \<and> (bytes < blk_size \<longrightarrow>
            do_allocate E flush st bytes alignment
            = Some (Inr new_block,
                    st2\<lparr>free_list := fl_put E (free_list st2) (new_block + bytes)
                                       (blk_size - bytes)\<rparr>))"
  using assms by (auto simp: do_allocate_def Let_def)

text \<open>
  On a fresh pool with the host defaults, a request of 100 bytes takes a block of 8192
  bytes and keeps the tail of 8092 bytes; a request of 8192 bytes takes the same block
  and keeps nothing.
\<close>

theorem do_allocate_from_upstream_witness:
  "do_allocate (test_collaborators 100000 False) base_flush_deferred (test_pool test_options) 100 8
   = Some (Inr 65536,
       (test_pool test_options)\<lparr>next_block_size_field := 8192,
          upstream := \<lparr>next_address = 73728, live = [(65536, 8192)]\<rparr>,
          blocks := [\<lparr>blk_ptr = 65536, blk_bytes = 8192, blk_alignment = 256\<rparr>],
          free_list := [(65636, 8092)]\<rparr>)
   \<and> do_allocate (test_collaborators 100000 False) base_flush_deferred (test_pool test_options) 8192 8
   = Some (Inr 65536,
       (test_pool test_options)\<lparr>next_block_size_field := 8192,
          upstream := \<lparr>next_address = 73728, live = [(65536, 8192)]\<rparr>,
          blocks := [\<lparr>blk_ptr = 65536, blk_bytes = 8192, blk_alignment = 256\<rparr>]\<rparr>)"
proof -
  let ?E = "test_collaborators 100000 False"
  let ?st = "test_pool test_options"
  let ?st2 = "?st\<lparr>next_block_size_field := 8192,
          upstream := \<lparr>next_address = 73728, live = [(65536, 8192)]\<rparr>,
          blocks := [\<lparr>blk_ptr = 65536, blk_bytes = 8192, blk_alignment = 256\<rparr>]\<rparr>"
  have miss: "fl_get ?E (free_list ?st) 100 8 = (0, [])" "fl_get ?E (free_list ?st) 8192 8 = (0, [])"
    by (simp_all add: test_defs)
  have up1: "get_upstream_block ?E base_flush_deferred (?st\<lparr>free_list := []\<rparr>) 100
               (max 8 (upstream_alignment (options ?st))) = Some (Inr (65536, 8192), ?st2)"
    by (simp add: eval_upstream)
  have up2: "get_upstream_block ?E base_flush_deferred (?st\<lparr>free_list := []\<rparr>) 8192
               (max 8 (upstream_alignment (options ?st))) = Some (Inr (65536, 8192), ?st2)"
    by (simp add: eval_upstream)
  have "do_allocate ?E base_flush_deferred ?st 100 8
        = Some (Inr 65536, ?st2\<lparr>free_list := fl_put ?E (free_list ?st2) (65536 + 100) (8192 - 100)\<rparr>)"
    using do_allocate_from_upstream [OF _ miss(1) up1] by simp
  moreover have "do_allocate ?E base_flush_deferred ?st 8192 8 = Some (Inr 65536, ?st2)"
    using do_allocate_from_upstream [OF _ miss(2) up2] by simp
  ultimately show ?thesis by (simp add: test_defs)
qed

section \<open>Progress of the acquisition loop\<close>

lemma drop_bit_1_le:
  fixes w :: size_t
  shows "drop_bit 1 w \<le> w"
  by (simp add: word_le_nat_alt unat_drop_bit_eq drop_bit_eq_div unat_div)

lemma upstream_requests_Cons:
  "\<exists>rest. upstream_requests E flush min_bytes alignment st blk_size t = (blk_size, t) # rest"
  by (subst upstream_requests.simps) simp

lemma upstream_requests_chain:
  assumes "min_bytes \<le> blk_size" "t \<longrightarrow> blk_size = min_bytes"
  shows "successively (request_step min_bytes)
           (upstream_requests E flush min_bytes alignment st blk_size t)
       \<and> (\<forall>r \<in> set (upstream_requests E flush min_bytes alignment st blk_size t).
             min_bytes \<le> fst r \<and> (snd r \<longrightarrow> fst r = min_bytes))
       \<and> (\<forall>r \<in> set (butlast (upstream_requests E flush min_bytes alignment st blk_size t)).
             \<not> snd r)"
  using assms
proof (induction E flush min_bytes alignment st blk_size t rule: upstream_requests.induct)
  case (1 E flush min_bytes alignment st blk_size t)
  show ?case
  proof (cases "upstream_iteration E flush min_bytes alignment st blk_size t")
    case (Retry st' blk_size' t')
    from upstream_iteration_Retry [OF Retry]
    have blk': "blk_size' = max min_bytes (drop_bit 1 blk_size)"
      and t': "if blk_size = min_bytes then \<not> t \<and> t' else t' = t"
      by simp_all
    have ge': "min_bytes \<le> blk_size'" by (simp add: blk')
    have not_t: "\<not> t" using t' "1.prems"(2) by (auto split: if_splits)
    have tried': "t' \<longrightarrow> blk_size' = min_bytes"
    proof (cases "blk_size = min_bytes")
      case True
      with drop_bit_1_le [of min_bytes] show ?thesis by (simp add: blk' max_def)
    next
      case False
      with t' not_t show ?thesis by simp
    qed
    have step: "request_step min_bytes (blk_size, t) (blk_size', t')"
    proof (cases "blk_size = min_bytes")
      case True
      with drop_bit_1_le [of min_bytes] have "blk_size' = blk_size" by (simp add: blk' max_def)
      with True t' show ?thesis by (simp add: request_step_def)
    next
      case False
      with "1.prems"(1) have gt: "min_bytes < blk_size" by simp
      then have "blk_size \<noteq> 0" by (metis word_not_simps(1))
      then have "drop_bit 1 blk_size < blk_size" by (rule drop_bit_1_less)
      with gt have "blk_size' < blk_size" by (simp add: blk' max_def)
      with False t' show ?thesis by (simp add: request_step_def)
    qed
    obtain rest where rest:
      "upstream_requests E flush min_bytes alignment st' blk_size' t' = (blk_size', t') # rest"
      using upstream_requests_Cons by blast
    have unfold: "upstream_requests E flush min_bytes alignment st blk_size t
                  = (blk_size, t) # (blk_size', t') # rest"
      by (subst upstream_requests.simps) (simp add: Retry rest)
    from "1.IH" [OF Retry ge' tried'] step not_t "1.prems" show ?thesis
      unfolding unfold by (simp add: rest)
  next
    case (Break p b s)
    then have "upstream_requests E flush min_bytes alignment st blk_size t = [(blk_size, t)]"
      by (subst upstream_requests.simps) simp
    with "1.prems" show ?thesis by simp
  next
    case (Throw e s)
    then have "upstream_requests E flush min_bytes alignment st blk_size t = [(blk_size, t)]"
      by (subst upstream_requests.simps) simp
    with "1.prems" show ?thesis by simp
  next
    case Blocked
    then have "upstream_requests E flush min_bytes alignment st blk_size t = [(blk_size, t)]"
      by (subst upstream_requests.simps) simp
    with "1.prems" show ?thesis by simp
  qed
qed

lemma upstream_iteration_not_Blocked:
  assumes "\<And>s. flush s \<noteq> None"
  shows "upstream_iteration E flush min_bytes alignment st blk_size t \<noteq> Blocked"
proof -
  obtain r u where a: "up_allocate E (upstream st) blk_size alignment = (r, u)"
    by (cases "up_allocate E (upstream st) blk_size alignment")
  show ?thesis
  proof (cases r)
    case (Some p)
    with a show ?thesis by (simp add: upstream_iteration_def)
  next
    case None
    from assms obtain st1 where f: "flush (st\<lparr>upstream := u\<rparr>) = Some st1" by fastforce
    with a None show ?thesis
      by (simp add: upstream_iteration_def shrink_def Let_def split: prod.splits)
  qed
qed

lemma upstream_loop_returns:
  assumes "\<And>s. flush s \<noteq> None"
  shows "(\<exists>p b s. upstream_loop E flush min_bytes alignment st blk_size t = Break p b s)
       \<or> (\<exists>e s. upstream_loop E flush min_bytes alignment st blk_size t = Throw e s)"
  using assms
proof (induction E flush min_bytes alignment st blk_size t rule: upstream_loop.induct)
  case (1 E flush min_bytes alignment st blk_size t)
  have total: "\<And>s. flush s \<noteq> None" by (rule "1.prems")
  show ?case
  proof (cases "upstream_iteration E flush min_bytes alignment st blk_size t")
    case (Retry st' blk_size' t')
    with "1.IH" [OF Retry total] show ?thesis by (subst (1 2) upstream_loop.simps) simp
  next
    case (Break p b s)
    then show ?thesis by (subst upstream_loop.simps) simp
  next
    case (Throw e s)
    then show ?thesis by (subst (1 2) upstream_loop.simps) simp
  next
    case Blocked
    with upstream_iteration_not_Blocked [of flush E min_bytes alignment st blk_size t, OF total]
    show ?thesis by simp
  qed
qed

lemma upstream_requests_from_start:
  "successively (request_step min_bytes)
     (upstream_requests E flush min_bytes alignment st blk_size False)
   \<and> (\<forall>r \<in> set (tl (upstream_requests E flush min_bytes alignment st blk_size False)).
         min_bytes \<le> fst r)
   \<and> (\<forall>r \<in> set (upstream_requests E flush min_bytes alignment st blk_size False).
         snd r \<longrightarrow> fst r = min_bytes)
   \<and> (\<forall>r \<in> set (butlast (upstream_requests E flush min_bytes alignment st blk_size False)).
         \<not> snd r)"
proof (cases "min_bytes \<le> blk_size")
  case True
  from upstream_requests_chain [OF True, of False E flush alignment st]
    upstream_requests_Cons [of E flush min_bytes alignment st blk_size False]
  show ?thesis by auto
next
  case False
  then have less: "blk_size < min_bytes" by simp
  show ?thesis
  proof (cases "upstream_iteration E flush min_bytes alignment st blk_size False")
    case (Retry st' blk_size' t')
    from upstream_iteration_Retry [OF Retry] less
    have t': "t' = False" and blk': "blk_size' = max min_bytes (drop_bit 1 blk_size)"
      by auto
    have "drop_bit 1 blk_size < min_bytes"
      using drop_bit_1_le [of blk_size] less by (meson le_less_trans)
    then have eq: "blk_size' = min_bytes" unfolding blk' by (rule max_absorb1 [OF less_imp_le])
    obtain rest where rest:
      "upstream_requests E flush min_bytes alignment st' min_bytes False = (min_bytes, False) # rest"
      using upstream_requests_Cons by blast
    have unfold: "upstream_requests E flush min_bytes alignment st blk_size False
                  = (blk_size, False) # (min_bytes, False) # rest"
      by (subst upstream_requests.simps) (simp add: Retry rest eq t')
    from upstream_requests_chain [of min_bytes min_bytes False E flush alignment st'] less
    show ?thesis unfolding unfold by (simp add: rest request_step_def)
  next
    case (Break p b s)
    then have "upstream_requests E flush min_bytes alignment st blk_size False = [(blk_size, False)]"
      by (subst upstream_requests.simps) simp
    then show ?thesis by simp
  next
    case (Throw e s)
    then have "upstream_requests E flush min_bytes alignment st blk_size False = [(blk_size, False)]"
      by (subst upstream_requests.simps) simp
    then show ?thesis by simp
  next
    case Blocked
    then have "upstream_requests E flush min_bytes alignment st blk_size False = [(blk_size, False)]"
      by (subst upstream_requests.simps) simp
    then show ?thesis by simp
  qed
qed

lemma upstream_iteration_after_reclaim:
  assumes "up_allocate E (upstream st) min_bytes alignment = (None, u)"
    and "flush (st\<lparr>upstream := u\<rparr>) = Some st1"
  shows "upstream_iteration E flush min_bytes alignment st min_bytes True = Throw bad_alloc st1"
  using assms by (simp add: upstream_iteration_def)

text \<open>
  C2, as amended. For every collaborator, pool, size and alignment, and every
  \<^verbatim>\<open>flush_deferred\<close> that returns (the base class's always does), \<^verbatim>\<open>get_upstream_block\<close>
  returns: with a block or with an exception. Of two successive requests of the call,
  the second is strictly smaller, or follows a reclaim pass, or raises a first request
  that was below \<open>min_bytes\<close> (the size \<^verbatim>\<open>next_block_size\<close> returned had wrapped) to
  \<open>min_bytes\<close>; every request after the first is at least \<open>min_bytes\<close>. Only the last
  request of a call can follow a reclaim pass, so there is at most one such pass, and that
  request asks for \<open>min_bytes\<close>. When it fails too, the iteration throws
  \<^verbatim>\<open>std::bad_alloc\<close>.
\<close>

theorem get_upstream_block_terminates:
  fixes st :: "('fl, 'u, 'z) pool_resource_base_scheme"
    and E :: "('fl, 'u) collaborators"
    and flush :: "('fl, 'u, 'z) pool_resource_base_scheme \<Rightarrow> ('fl, 'u, 'z) pool_resource_base_scheme option"
    and min_bytes alignment :: size_t
  defines "reqs \<equiv> upstream_requests E flush min_bytes alignment
                     (snd (next_block_size st min_bytes)) (fst (next_block_size st min_bytes)) False"
  assumes returns: "\<And>s. flush s \<noteq> None"
  shows "get_upstream_block E flush st min_bytes alignment \<noteq> None
       \<and> successively (request_step min_bytes) reqs
       \<and> (\<forall>r \<in> set (tl reqs). min_bytes \<le> fst r)
       \<and> (\<forall>r \<in> set (butlast reqs). \<not> snd r)
       \<and> (\<forall>r \<in> set reqs. snd r \<longrightarrow> fst r = min_bytes)
       \<and> (\<forall>st' u st1. up_allocate E (upstream st') min_bytes alignment = (None, u)
             \<and> flush (st'\<lparr>upstream := u\<rparr>) = Some st1
             \<longrightarrow> upstream_iteration E flush min_bytes alignment st' min_bytes True
                 = Throw bad_alloc st1)"
proof -
  have A: "get_upstream_block E flush st min_bytes alignment \<noteq> None"
    using upstream_loop_returns [where flush = flush and E = E and min_bytes = min_bytes
            and alignment = alignment and st = "snd (next_block_size st min_bytes)"
            and blk_size = "fst (next_block_size st min_bytes)" and t = False, OF returns]
    by (auto simp: get_upstream_block_def Let_def split: prod.splits)
  note B = upstream_requests_from_start [where min_bytes = min_bytes and E = E and flush = flush
            and alignment = alignment and st = "snd (next_block_size st min_bytes)"
            and blk_size = "fst (next_block_size st min_bytes)", folded reqs_def]
  have C: "\<forall>st' u st1. up_allocate E (upstream st') min_bytes alignment = (None, u)
             \<and> flush (st'\<lparr>upstream := u\<rparr>) = Some st1
             \<longrightarrow> upstream_iteration E flush min_bytes alignment st' min_bytes True
                 = Throw bad_alloc st1"
    by (simp add: upstream_iteration_after_reclaim)
  from A B C show ?thesis by (intro conjI) (elim conjE, assumption)+
qed

text \<open>
  The shrink-and-reclaim scenario: the upstream caps the total at 8 KiB and the pool owns
  a free block of 8 KiB. A request for 4 KiB asks upstream for 16 KiB, 8 KiB and 4 KiB in
  vain, gives the free block back, and obtains 4 KiB.
\<close>

theorem get_upstream_block_terminates_witness:
  "(\<forall>s :: (region list, test_upstream) pool_resource_base. base_flush_deferred s \<noteq> None)
   \<and> get_upstream_block (test_collaborators 8192 False) base_flush_deferred scenario_pool 4096 256
     = Some (Inr (73728, 4096),
         (test_pool test_options)
           \<lparr>upstream := \<lparr>next_address = 77824, live = [(73728, 4096)]\<rparr>,
            free_list := [], next_block_size_field := 4096,
            blocks := [\<lparr>blk_ptr = 73728, blk_bytes = 4096, blk_alignment = 256\<rparr>]\<rparr>)
   \<and> upstream_requests (test_collaborators 8192 False) base_flush_deferred 4096 256
       (snd (next_block_size scenario_pool 4096)) (fst (next_block_size scenario_pool 4096)) False
     = [(16384, False), (8192, False), (4096, False), (4096, True)]"
proof -
  have total: "\<And>s :: (region list, test_upstream) pool_resource_base. base_flush_deferred s \<noteq> None"
    by (simp add: base_flush_deferred_def)
  have run: "get_upstream_block (test_collaborators 8192 False) base_flush_deferred scenario_pool 4096 256
     = Some (Inr (73728, 4096),
         (test_pool test_options)
           \<lparr>upstream := \<lparr>next_address = 77824, live = [(73728, 4096)]\<rparr>,
            free_list := [], next_block_size_field := 4096,
            blocks := [\<lparr>blk_ptr = 73728, blk_bytes = 4096, blk_alignment = 256\<rparr>]\<rparr>)"
    by (simp add: eval_loop scenario_pool_def ilog2_16384 align_up_16384)
  have reqs: "upstream_requests (test_collaborators 8192 False) base_flush_deferred 4096 256
       (snd (next_block_size scenario_pool 4096)) (fst (next_block_size scenario_pool 4096)) False
     = [(16384, False), (8192, False), (4096, False), (4096, True)]"
    by (simp add: eval_loop scenario_pool_def ilog2_16384 align_up_16384)
  from get_upstream_block_terminates [where flush = base_flush_deferred
         and E = "test_collaborators 8192 False" and st = scenario_pool and min_bytes = 4096
         and alignment = 256, OF total] total run reqs
  show ?thesis by simp
qed

text \<open>
  The claim as stated fails for a request of \<open>2 ^ 64 - 1\<close> bytes on an exhausted
  upstream: the first request is for 0 bytes, and after its failure the second one is for
  \<open>2 ^ 64 - 1\<close> bytes, with no reclaim pass in between. (The alignment is \<open>2 ^ 53\<close>, and
  every \<^verbatim>\<open>size_t\<close> that is a multiple of it is below \<open>2 ^ 64 - 1\<close>: the first request is
  smaller than \<open>min_bytes\<close> whatever multiple \<^verbatim>\<open>align_up\<close> returns.)
\<close>

theorem get_upstream_block_grows_counterexample:
  "upstream_requests (test_collaborators 0 False) base_flush_deferred 18446744073709551615 256
       (snd (next_block_size exhausted_pool 18446744073709551615))
       (fst (next_block_size exhausted_pool 18446744073709551615)) False
     = [(0, False), (18446744073709551615, False)]"
  by (simp add: eval_loop exhausted_pool_def ilog2_max_word align_up_max_word)

section \<open>The size of the next block\<close>

lemma ilog2_nat_le: "n \<noteq> 0 \<Longrightarrow> 2 ^ ilog2_nat n \<le> n"
proof (induction n rule: ilog2_nat.induct)
  case (1 n)
  show ?case
  proof (cases "n < 2")
    case True
    with "1.prems" show ?thesis by (subst ilog2_nat.simps) simp
  next
    case False
    then have "n div 2 \<noteq> 0" by simp
    with "1.IH" False have "2 ^ ilog2_nat (n div 2) \<le> n div 2" by simp
    then have "2 * 2 ^ ilog2_nat (n div 2) \<le> n" by simp
    with False show ?thesis by (subst ilog2_nat.simps) simp
  qed
qed

lemma ilog2_nat_less_64: "n < 2 ^ 64 \<Longrightarrow> ilog2_nat n < 64"
proof (cases "n = 0")
  case True
  then show ?thesis by (subst ilog2_nat.simps) simp
next
  case False
  assume "n < 2 ^ 64"
  with ilog2_nat_le [OF False] have "(2::nat) ^ ilog2_nat n < 2 ^ 64" by simp
  then show ?thesis by (simp only: power_strict_increasing_iff rel_simps)
qed

lemma ilog2_range: "0 \<le> ilog2 x \<and> ilog2 x \<le> 63"
proof -
  have "unat x < 2 ^ 64" using unsigned_less [of x] by simp
  from ilog2_nat_less_64 [OF this] show ?thesis by (simp add: ilog2_def)
qed

lemma alignment_exponent_range:
  "12 \<le> nat (max (ilog2 x - 10) 12) \<and> nat (max (ilog2 x - 10) 12) \<le> 53"
  using ilog2_range [of x] by auto

lemma unat_push_bit_1:
  assumes "k < 64"
  shows "unat (push_bit k 1 :: size_t) = 2 ^ k"
proof -
  have len: "LENGTH(64) = 64" by simp
  have "(push_bit k 1 :: size_t) = word_of_nat (2 ^ k)" by simp
  then have "unat (push_bit k 1 :: size_t) = 2 ^ k mod 2 ^ 64"
    by (simp only: unat_of_nat len)
  moreover have "(2::nat) ^ k < 2 ^ 64" using assms by (rule power_strict_increasing) simp
  ultimately show ?thesis by (simp only: mod_less)
qed

lemma round_up_dvd: "a dvd round_up n a"
  by (simp add: round_up_def)

lemma round_up_ge:
  assumes "0 < a"
  shows "n \<le> round_up n a"
proof -
  have "n + a - 1 < ((n + a - 1) div a) * a + a"
    using assms by (metis add.commute dividend_less_div_times mult.commute)
  then show ?thesis using assms by (simp add: round_up_def)
qed

lemma round_up_less:
  assumes "0 < a"
  shows "round_up n a < n + a"
proof -
  have le: "((n + a - 1) div a) * a \<le> n + a - 1" by simp
  have "n + a - 1 < n + a" using assms by simp
  with le show ?thesis unfolding round_up_def by (rule le_less_trans)
qed

lemma round_up_least:
  assumes "a dvd m" "n \<le> m" "0 < a"
  shows "round_up n a \<le> m"
proof -
  from assms(1) obtain q where m: "m = a * q" by (auto simp: dvd_def)
  have "n + a - 1 < a * q + a" using assms(2,3) m by simp
  then have "(n + a - 1) div a < q + 1"
    using assms(3) by (simp add: less_mult_imp_div_less mult.commute)
  then have "(n + a - 1) div a \<le> q" by simp
  then show ?thesis by (simp add: round_up_def m mult.commute)
qed

lemma round_up_wraps:
  assumes "n < 2 ^ 64" "k \<le> 64" "2 ^ 64 \<le> round_up n (2 ^ k)"
  shows "round_up n (2 ^ k) = 2 ^ 64"
proof -
  have "(2::nat) ^ k dvd 2 ^ 64" using assms(2) by (rule le_imp_power_dvd)
  then have "round_up n (2 ^ k) \<le> 2 ^ 64"
    using assms(1) by (intro round_up_least) simp_all
  with assms(3) show ?thesis by simp
qed

lemma unat_align_up: "unat (align_up x a) = round_up (unat x) (unat a) mod 2 ^ 64"
  by (simp add: align_up_def unat_of_nat)

text \<open>
  C3, as amended. With \<open>actual = max upcoming (growth_factor cursor)\<close> and
  \<open>k = max (ilog2 actual - 10) 12\<close>, which lies between 12 and 53 (so \<^verbatim>\<open>1uL << k\<close> is
  \<open>2 ^ k\<close>), \<^verbatim>\<open>next_block_size\<close> returns a value \<open>r\<close> and stores
  \<open>min r max_block_size\<close> in the cursor, changing nothing else. When \<open>actual\<close> rounded up
  to a multiple of \<open>2 ^ k\<close> is below \<open>2 ^ 64\<close>, \<open>r\<close> is that number: a multiple of
  \<open>2 ^ k\<close>, at least \<open>actual\<close> and less than \<open>actual + 2 ^ k\<close>. Otherwise the rounded
  value is \<open>2 ^ 64\<close> and \<open>r = 0\<close>.
\<close>

theorem next_block_size_aligned:
  fixes st :: "('fl, 'u, 'z) pool_resource_base_scheme" and upcoming :: size_t
  defines "actual \<equiv> max upcoming (growth_factor (options st) (next_block_size_field st))"
  defines "k \<equiv> nat (max (ilog2 actual - 10) 12)"
  defines "r \<equiv> fst (next_block_size st upcoming)"
  shows "12 \<le> k \<and> k \<le> 53
       \<and> next_block_size st upcoming
         = (r, st\<lparr>next_block_size_field := min r (max_block_size (options st))\<rparr>)
       \<and> (if round_up (unat actual) (2 ^ k) < 2 ^ 64
          then unat r = round_up (unat actual) (2 ^ k) \<and> 2 ^ k dvd unat r
               \<and> unat actual \<le> unat r \<and> unat r < unat actual + 2 ^ k
          else r = 0)"
proof -
  have k: "12 \<le> k" "k \<le> 53"
    using alignment_exponent_range [of actual] by (simp_all add: k_def)
  then have "k < 64" by simp
  then have a: "unat (push_bit k 1 :: size_t) = 2 ^ k" by (rule unat_push_bit_1)
  have r: "r = align_up actual (push_bit k 1)"
    by (simp add: r_def next_block_size_def Let_def actual_def k_def)
  have nb: "next_block_size st upcoming
         = (r, st\<lparr>next_block_size_field := min r (max_block_size (options st))\<rparr>)"
    by (simp add: r_def next_block_size_def Let_def)
  have u: "unat r = round_up (unat actual) (2 ^ k) mod 2 ^ 64"
    by (simp only: r unat_align_up a)
  have pos: "(0::nat) < 2 ^ k" by simp
  show ?thesis
  proof (cases "round_up (unat actual) (2 ^ k) < 2 ^ 64")
    case True
    then have "unat r = round_up (unat actual) (2 ^ k)" by (simp only: u mod_less)
    with True k nb round_up_dvd [of "2 ^ k" "unat actual"]
      round_up_ge [OF pos, of "unat actual"] round_up_less [OF pos, of "unat actual"]
    show ?thesis by simp
  next
    case False
    have "unat actual < 2 ^ 64" using unsigned_less [of actual] by simp
    moreover have "k \<le> 64" using k by simp
    moreover have "2 ^ 64 \<le> round_up (unat actual) (2 ^ k)" using False by simp
    ultimately have "round_up (unat actual) (2 ^ k) = 2 ^ 64" by (rule round_up_wraps)
    then have "unat r = 0" by (simp only: u mod_self)
    then have "r = 0" by (simp only: unat_eq_0)
    with False k nb show ?thesis by simp
  qed
qed

text \<open>A request of 10000 bytes on a fresh pool: the block is 12288 bytes (three pages).\<close>

theorem next_block_size_aligned_witness:
  "next_block_size (test_pool test_options) 10000
   = (12288, (test_pool test_options)\<lparr>next_block_size_field := 12288\<rparr>)"
proof -
  have k: "ilog2 (10000 :: size_t) = 13"
    using ilog2_eq [of 13 "10000 :: size_t"] by simp
  have fits: "round_up 10000 4096 = 12288" by (simp add: round_up_def)
  have r: "unat (fst (next_block_size (test_pool test_options) 10000)) = 12288"
    using next_block_size_aligned [where st = "test_pool test_options" and upcoming = 10000]
    by (simp add: test_defs k fits)
  have "fst (next_block_size (test_pool test_options) 10000)
        = word_of_nat (unat (fst (next_block_size (test_pool test_options) 10000)))"
    by simp
  also have "\<dots> = 12288" by (simp only: r) simp
  finally have "fst (next_block_size (test_pool test_options) 10000) = 12288" .
  with next_block_size_aligned [where st = "test_pool test_options" and upcoming = 10000]
  show ?thesis by (simp add: test_defs)
qed

text \<open>
  The claim as stated fails for a request of \<open>2 ^ 64 - 1\<close> bytes: the alignment is
  \<open>2 ^ 53\<close>, no \<^verbatim>\<open>size_t\<close> is a multiple of it and at least the request, and the value
  returned and stored is 0.
\<close>

theorem next_block_size_wraps_counterexample:
  "fst (next_block_size (test_pool test_options) 18446744073709551615) = 0
   \<and> next_block_size_field (snd (next_block_size (test_pool test_options) 18446744073709551615)) = 0"
proof -
  have k: "ilog2 (18446744073709551615 :: size_t) = 63"
    using ilog2_eq [of 63 "18446744073709551615 :: size_t"] by simp
  show ?thesis
    by (simp add: next_block_size_def Let_def test_defs k align_up_def round_up_def)
qed

section \<open>The worker's wait predicate\<close>

text \<open>
  C4. The claim: the predicate of the worker's wait on \<^verbatim>\<open>cv_\<close> is true exactly when
  \<^verbatim>\<open>stopped_\<close> is set or the current queue \<^verbatim>\<open>deallocs_[queue_idx_]\<close> is not empty. The
  predicate as written, \<^verbatim>\<open>!stopped_ || deallocs_[queue_idx_].empty()\<close>, agrees with that
  exactly on the states where \<^verbatim>\<open>stopped_\<close> is set if and only if the current queue is
  empty. It differs on a running pool with an empty queue (the predicate is true: the
  worker does not wait) and on a stopped pool with work queued (the predicate is false).
\<close>

theorem run_wait_predicate_agrees_iff:
  "(run_wait_predicate st \<longleftrightarrow> (stopped st \<or> deallocs st ! queue_idx st \<noteq> []))
   \<longleftrightarrow> (stopped st \<longleftrightarrow> deallocs st ! queue_idx st = [])"
  by (auto simp: run_wait_predicate_def)

text \<open>
  A fresh deferred pool is not stopped and its current queue is empty: the predicate as
  written is true there.
\<close>

theorem run_wait_predicate_idle_pool:
  "run_wait_predicate (test_deferred_pool test_options)
   \<and> \<not> stopped (test_deferred_pool test_options)
   \<and> deallocs (test_deferred_pool test_options) ! queue_idx (test_deferred_pool test_options) = []"
  using run_wait_predicate_agrees_iff [of "test_deferred_pool test_options"]
  by (simp add: test_deferred_pool_def)

section \<open>Backpressure\<close>

lemma bulk_deallocate_deferred_fields [simp]:
  "deallocs (bulk_deallocate E ps st) = deallocs st"
  "queue_idx (bulk_deallocate E ps st) = queue_idx st"
  "stopped (bulk_deallocate E ps st) = stopped st"
  "worker (bulk_deallocate E ps st) = worker st"
  "options (bulk_deallocate E ps st) = options st"
  by (simp_all add: bulk_deallocate_def synchronize_span_def Let_def)

lemma two_queues:
  assumes "length (qs :: 'a list list) = 2" "i < 2"
  shows "length (qs[i := []] ! 0) + length (qs[i := []] ! 1) = length (qs ! (1 - i))"
    and "qs[i := []] ! i = []"
    and "qs[i := []] ! (1 - i) = qs ! (1 - i)"
proof -
  from assms(1) obtain a b where qs: "qs = [a, b]"
    by (metis (no_types, opaque_lifting) One_nat_def Suc_1 length_0_conv length_Suc_conv)
  from assms(2) have "i = 0 \<or> i = 1" by auto
  then show "length (qs[i := []] ! 0) + length (qs[i := []] ! 1) = length (qs ! (1 - i))"
    and "qs[i := []] ! i = []" and "qs[i := []] ! (1 - i) = qs ! (1 - i)"
    by (auto simp: qs)
qed

lemma await_ready_effect:
  assumes wf: "worker_consistent st" and w: "await_ready E st = Some st'"
  shows "worker_consistent st' \<and> queued st' \<le> length (deallocs st ! queue_idx st)
         \<and> queued st' \<le> queued st \<and> options st' = options st"
proof (cases "worker st")
  case not_started
  with w show ?thesis by (simp add: await_ready_def)
next
  case exited
  with w show ?thesis by (simp add: await_ready_def)
next
  case (draining k)
  with wf have k: "k = 1 - queue_idx st" and len: "length (deallocs st) = 2"
    and idx: "queue_idx st < 2" and run: "\<not> stopped st"
    by (simp_all add: worker_consistent_def)
  from idx have k2: "k < 2" and flip: "1 - k = queue_idx st" using k by auto
  from w draining have st': "st' = run_step E st" by (simp add: await_ready_def)
  have d: "deallocs st' = (deallocs st)[k := []]" "queue_idx st' = queue_idx st"
    "stopped st' = stopped st" "worker st' = idle" "options st' = options st"
    by (simp_all add: st' run_step_def draining Let_def)
  from two_queues [OF len k2] flip
  have q: "queued st' = length (deallocs st ! queue_idx st)"
    and e: "deallocs st' ! (1 - queue_idx st') = []"
    by (simp_all add: queued_def d k)
  have "length (deallocs st ! queue_idx st) \<le> queued st"
    using idx by (auto simp: queued_def less_2_cases_iff)
  with q e d len idx run show ?thesis by (simp add: worker_consistent_def)
next
  case idle
  with wf have empty: "deallocs st ! (1 - queue_idx st) = []" and len: "length (deallocs st) = 2"
    and idx: "queue_idx st < 2" and run: "\<not> stopped st"
    by (simp_all add: worker_consistent_def)
  let ?mid = "run_step E st"
  have mid: "worker ?mid = draining (queue_idx st)" "deallocs ?mid = deallocs st"
    "queue_idx ?mid = 1 - queue_idx st" "stopped ?mid = stopped st" "options ?mid = options st"
    using run by (simp_all add: run_step_def idle is_stopped_def run_wait_predicate_def)
  from w idle mid have st': "st' = run_step E ?mid" by (simp add: await_ready_def)
  have d: "deallocs st' = (deallocs st)[queue_idx st := []]" "queue_idx st' = 1 - queue_idx st"
    "stopped st' = stopped st" "worker st' = idle" "options st' = options st"
    by (simp_all add: st' run_step_def [of E ?mid] mid Let_def)
  from two_queues [OF len idx] empty
  have q: "queued st' = 0" and e: "deallocs st' ! queue_idx st = []"
    by (simp_all add: queued_def d)
  have flip: "1 - (1 - queue_idx st) = queue_idx st" using idx by auto
  from q e d len idx run flip show ?thesis by (simp add: worker_consistent_def)
qed

lemma upstream_iteration_preserves:
  fixes P :: "('fl, 'u, 'z) pool_resource_base_scheme \<Rightarrow> bool"
  assumes upd: "\<And>s u. P (s\<lparr>upstream := u\<rparr>) = P s" "\<And>s f. P (s\<lparr>free_list := f\<rparr>) = P s"
      "\<And>s n. P (s\<lparr>next_block_size_field := n\<rparr>) = P s" "\<And>s b. P (s\<lparr>blocks := b\<rparr>) = P s"
    and fl: "\<And>s s'. flush s = Some s' \<Longrightarrow> P s \<Longrightarrow> P s'"
    and P: "P st"
  shows "case upstream_iteration E flush min_bytes alignment st blk_size t of
           Retry s' b' t' \<Rightarrow> P s' | Break p b' s' \<Rightarrow> P s' | Throw e s' \<Rightarrow> P s' | Blocked \<Rightarrow> True"
proof -
  obtain r u where a: "up_allocate E (upstream st) blk_size alignment = (r, u)"
    by (cases "up_allocate E (upstream st) blk_size alignment")
  show ?thesis
  proof (cases r)
    case (Some p)
    with a P show ?thesis by (simp add: upstream_iteration_def upd)
  next
    case None
    show ?thesis
    proof (cases "flush (st\<lparr>upstream := u\<rparr>)")
      case no: None
      with a None show ?thesis by (simp add: upstream_iteration_def)
    next
      case (Some st1)
      from fl [OF Some] P have "P st1" by (simp add: upd)
      with a None Some show ?thesis
        by (simp add: upstream_iteration_def shrink_def Let_def upd split: prod.splits)
    qed
  qed
qed

lemma upstream_loop_preserves:
  fixes P :: "('fl, 'u, 'z) pool_resource_base_scheme \<Rightarrow> bool"
  assumes upd: "\<And>s u. P (s\<lparr>upstream := u\<rparr>) = P s" "\<And>s f. P (s\<lparr>free_list := f\<rparr>) = P s"
      "\<And>s n. P (s\<lparr>next_block_size_field := n\<rparr>) = P s" "\<And>s b. P (s\<lparr>blocks := b\<rparr>) = P s"
    and fl: "\<And>s s'. flush s = Some s' \<Longrightarrow> P s \<Longrightarrow> P s'"
    and P: "P st"
  shows "case upstream_loop E flush min_bytes alignment st blk_size t of
           Retry s' b' t' \<Rightarrow> True | Break p b' s' \<Rightarrow> P s' | Throw e s' \<Rightarrow> P s' | Blocked \<Rightarrow> True"
  using fl P
proof (induction E flush min_bytes alignment st blk_size t rule: upstream_loop.induct)
  case (1 E flush min_bytes alignment st blk_size t)
  have fl: "\<And>s s'. flush s = Some s' \<Longrightarrow> P s \<Longrightarrow> P s'" by (rule "1.prems"(1))
  note it = upstream_iteration_preserves [of P flush st E min_bytes alignment blk_size t,
              OF upd fl "1.prems"(2)]
  show ?case
  proof (cases "upstream_iteration E flush min_bytes alignment st blk_size t")
    case (Retry st' blk_size' t')
    with it have "P st'" by simp
    from "1.IH" [OF Retry fl this] Retry show ?thesis
      by (subst upstream_loop.simps) simp
  next
    case (Break p b s)
    with it show ?thesis by (subst upstream_loop.simps) simp
  next
    case (Throw e s)
    with it show ?thesis by (subst upstream_loop.simps) simp
  next
    case Blocked
    then show ?thesis by (subst upstream_loop.simps) simp
  qed
qed

lemma do_allocate_preserves:
  fixes P :: "('fl, 'u, 'z) pool_resource_base_scheme \<Rightarrow> bool"
  assumes upd: "\<And>s u. P (s\<lparr>upstream := u\<rparr>) = P s" "\<And>s f. P (s\<lparr>free_list := f\<rparr>) = P s"
      "\<And>s n. P (s\<lparr>next_block_size_field := n\<rparr>) = P s" "\<And>s b. P (s\<lparr>blocks := b\<rparr>) = P s"
    and fl: "\<And>s s'. flush s = Some s' \<Longrightarrow> P s \<Longrightarrow> P s'"
    and P: "P st"
    and res: "do_allocate E flush st bytes alignment = Some (r, st')"
  shows "P st'"
proof -
  have gub: "P s'" if "P s" "get_upstream_block E flush s mb al = Some (x, s')" for s s' mb al x
  proof -
    from that(1) have "P (snd (next_block_size s mb))"
      by (simp add: next_block_size_def Let_def upd)
    from upstream_loop_preserves [of P flush "snd (next_block_size s mb)" E mb al
           "fst (next_block_size s mb)" False, OF upd fl this] that(2)
    show ?thesis
      by (auto simp: get_upstream_block_def Let_def upd split: prod.splits attempt.splits if_splits)
  qed
  from res P show ?thesis
    by (auto simp: do_allocate_def Let_def upd split: prod.splits if_splits option.splits sum.splits
             dest: gub [rotated])
qed

lemma outstanding_dealloc_count_queued:
  assumes "queued st < 2 ^ 31"
  shows "outstanding_dealloc_count st = int (queued st)"
proof -
  have "signed_take_bit 31 (int (queued st)) = int (queued st)"
    using assms by (intro signed_take_bit_int_eq_self) simp_all
  then have "sint (word_of_nat (queued st) :: 32 word) = int (queued st)"
    by (simp add: signed_of_nat)
  then show ?thesis by (simp add: outstanding_dealloc_count_def queued_def)
qed

lemma flush_deferred_effect:
  assumes wf: "worker_consistent st" and f: "flush_deferred (await_ready E) st = Some st'"
  shows "worker_consistent st' \<and> queued st' \<le> length (deallocs st ! queue_idx st)
         \<and> queued st' \<le> queued st"
proof (cases "no_pending_deallocs st")
  case True
  with f have "st' = st" by (simp add: flush_deferred_def)
  moreover from True have "queued st = 0" by (simp add: no_pending_deallocs_def queued_def)
  ultimately show ?thesis using wf by simp
next
  case False
  with f have "await_ready E st = Some st'" by (simp add: flush_deferred_def)
  from await_ready_effect [OF wf this] show ?thesis by simp
qed

text \<open>
  C5, as amended. One caller and the worker, where a caller blocked in \<^verbatim>\<open>ready_.wait\<close>
  wakes at the worker's next notification (\<open>await_ready\<close>), in a consistent state with
  fewer than \<open>2 ^ 31\<close> entries queued. When \<^verbatim>\<open>allocate\<close> returns, the outstanding count
  has not grown, and with deferred deallocation enabled it is at most the larger of
  \<^verbatim>\<open>max_outstanding_deallocations\<close> and the number of entries that were in the current
  queue (the one producers fill) at the call: the flush waits for one batch, which empties
  the queue the worker took and not the other one.
\<close>

theorem deferred_do_allocate_backpressure:
  assumes wf: "worker_consistent st"
    and small: "queued st < 2 ^ 31"
    and res: "deferred_do_allocate E (await_ready E) st bytes alignment = Some (r, st')"
  shows "deferred_do_allocate E (await_ready E) st bytes alignment
         = (if enable_deferred_deallocation (options st)
               \<and> outstanding_dealloc_count st > max_outstanding_deallocations (options st)
            then Option.bind (flush_deferred (await_ready E) st)
                   (\<lambda>s. do_allocate E (flush_deferred (await_ready E)) s bytes alignment)
            else do_allocate E (flush_deferred (await_ready E)) st bytes alignment)
       \<and> outstanding_dealloc_count st' \<le> outstanding_dealloc_count st
       \<and> (enable_deferred_deallocation (options st) \<longrightarrow>
            outstanding_dealloc_count st'
            \<le> max (max_outstanding_deallocations (options st))
                   (int (length (deallocs st ! queue_idx st))))"
proof -
  have first: "deferred_do_allocate E (await_ready E) st bytes alignment
         = (if enable_deferred_deallocation (options st)
               \<and> outstanding_dealloc_count st > max_outstanding_deallocations (options st)
            then Option.bind (flush_deferred (await_ready E) st)
                   (\<lambda>s. do_allocate E (flush_deferred (await_ready E)) s bytes alignment)
            else do_allocate E (flush_deferred (await_ready E)) st bytes alignment)"
    by (simp add: deferred_do_allocate_def split: option.splits)
  define P where "P N s \<longleftrightarrow> worker_consistent s \<and> queued s \<le> N"
    for N and s :: "('a, 'b, 'c) deferred_dealloc_pool_scheme"
  have upd: "P N (s\<lparr>upstream := u\<rparr>) = P N s" "P N (s\<lparr>free_list := f\<rparr>) = P N s"
    "P N (s\<lparr>next_block_size_field := n\<rparr>) = P N s" "P N (s\<lparr>blocks := b\<rparr>) = P N s"
    for N s u f n b
    by (simp_all add: P_def worker_consistent_def queued_def cong: worker_state.case_cong)
  have fl: "P N s'" if "flush_deferred (await_ready E) s = Some s'" "P N s" for N s s'
    using flush_deferred_effect [OF _ that(1)] that(2) by (auto simp: P_def)
  have after: "P N st'" if "P N s" "do_allocate E (flush_deferred (await_ready E)) s bytes alignment
                                    = Some (r, st')" for N s
    using do_allocate_preserves [of "P N" "flush_deferred (await_ready E)" s E bytes alignment r st',
            OF upd fl that] .
  let ?trigger = "enable_deferred_deallocation (options st)
                  \<and> outstanding_dealloc_count st > max_outstanding_deallocations (options st)"
  have count: "outstanding_dealloc_count st = int (queued st)"
    using small by (rule outstanding_dealloc_count_queued)
  show ?thesis
  proof (cases ?trigger)
    case True
    with res obtain st1 where st1: "flush_deferred (await_ready E) st = Some st1"
      and run: "do_allocate E (flush_deferred (await_ready E)) st1 bytes alignment = Some (r, st')"
      by (auto simp: deferred_do_allocate_def split: option.splits)
    from flush_deferred_effect [OF wf st1]
    have "P (length (deallocs st ! queue_idx st)) st1" "P (queued st) st1"
      by (simp_all add: P_def)
    from after [OF this(1) run] after [OF this(2) run]
    have q: "queued st' \<le> length (deallocs st ! queue_idx st)" "queued st' \<le> queued st"
      by (simp_all add: P_def)
    with small have "outstanding_dealloc_count st' = int (queued st')"
      by (intro outstanding_dealloc_count_queued) simp
    with q count have "outstanding_dealloc_count st' \<le> outstanding_dealloc_count st
       \<and> (enable_deferred_deallocation (options st) \<longrightarrow>
            outstanding_dealloc_count st'
            \<le> max (max_outstanding_deallocations (options st))
                   (int (length (deallocs st ! queue_idx st))))"
      by (auto simp: max_def)
    with first show ?thesis by (rule conjI)
  next
    case False
    with res have run: "do_allocate E (flush_deferred (await_ready E)) st bytes alignment
                        = Some (r, st')"
      by (auto simp: deferred_do_allocate_def split: if_splits)
    have "P (queued st) st" using wf by (simp add: P_def)
    from after [OF this run] have q: "queued st' \<le> queued st" by (simp add: P_def)
    with small have "outstanding_dealloc_count st' = int (queued st')"
      by (intro outstanding_dealloc_count_queued) simp
    with q count False have "outstanding_dealloc_count st' \<le> outstanding_dealloc_count st
       \<and> (enable_deferred_deallocation (options st) \<longrightarrow>
            outstanding_dealloc_count st'
            \<le> max (max_outstanding_deallocations (options st))
                   (int (length (deallocs st ! queue_idx st))))"
      by auto
    with first show ?thesis by (rule conjI)
  qed
qed

text \<open>
  After three deallocations with an idle worker, \<^verbatim>\<open>allocate\<close> flushes: the worker takes
  the three entries, and none is outstanding when \<^verbatim>\<open>allocate\<close> returns.
\<close>

theorem deferred_do_allocate_backpressure_witness:
  "worker_consistent backpressure_pool
   \<and> outstanding_dealloc_count backpressure_pool = 3
   \<and> map_option fst (deferred_do_allocate (test_collaborators 100000 False)
         (await_ready (test_collaborators 100000 False)) backpressure_pool 64 8) = Some (Inr 65792)
   \<and> map_option (\<lambda>res. outstanding_dealloc_count (snd res))
        (deferred_do_allocate (test_collaborators 100000 False)
          (await_ready (test_collaborators 100000 False)) backpressure_pool 64 8) = Some 0"
proof -
  have wf: "worker_consistent backpressure_pool"
    by (simp add: worker_consistent_def backpressure_pool_eq four_regions_pool_eq
          test_deferred_pool_def)
  have small: "queued backpressure_pool < 2 ^ 31"
    by (simp add: queued_def backpressure_pool_eq)
  have before: "outstanding_dealloc_count backpressure_pool = 3"
    by (simp add: outstanding_dealloc_count_def backpressure_pool_eq)
  have result: "map_option fst (deferred_do_allocate (test_collaborators 100000 False)
         (await_ready (test_collaborators 100000 False)) backpressure_pool 64 8) = Some (Inr 65792)"
    by (simp add: backpressure_run)
  have after: "map_option (\<lambda>res. outstanding_dealloc_count (snd res))
        (deferred_do_allocate (test_collaborators 100000 False)
          (await_ready (test_collaborators 100000 False)) backpressure_pool 64 8) = Some 0"
    by (simp add: backpressure_run outstanding_dealloc_count_def)
  from deferred_do_allocate_backpressure [OF wf small backpressure_run] wf before result after
  show ?thesis by blast
qed

text \<open>
  The claim as stated fails when three deallocations arrive while the worker drains an
  earlier one: \<^verbatim>\<open>allocate\<close> sees four outstanding entries, waits for the batch of one to
  complete, and returns with three outstanding, above the threshold of 2.
\<close>

theorem deferred_do_allocate_backlog_counterexample:
  "enable_deferred_deallocation (options backlog_pool)
   \<and> max_outstanding_deallocations (options backlog_pool) = 2
   \<and> outstanding_dealloc_count backlog_pool = 4
   \<and> map_option fst (deferred_do_allocate (test_collaborators 100000 False)
         (await_ready (test_collaborators 100000 False)) backlog_pool 64 8) = Some (Inr 65792)
   \<and> map_option (\<lambda>res. outstanding_dealloc_count (snd res))
        (deferred_do_allocate (test_collaborators 100000 False)
          (await_ready (test_collaborators 100000 False)) backlog_pool 64 8) = Some 3"
  by (simp add: backlog_pool_eq four_regions_pool_eq eval_deferred test_defs Let_def)

section \<open>Synchronization of a batch\<close>

lemma distinct_first_occurrences: "distinct (first_occurrences xs)"
  by (induction xs) (auto simp: distinct_filter)

lemma set_first_occurrences: "set (first_occurrences xs) = set xs"
  by (induction xs) auto

lemma mask_test_bit:
  fixes w :: "32 word"
  shows "(w AND push_bit n 1 \<noteq> 0) = bit w n"
  by (simp add: bit_iff_and_push_bit_not_eq_0)

lemma dev_mask_holds_empty: "dev_mask_holds (replicate 8 0) {}"
proof -
  have "nat (d div 32) < 8" if "0 \<le> d" "d < 256" for d :: int
    using that by simp
  then show ?thesis by (simp add: dev_mask_holds_def)
qed

lemma device_of_bin_and_bit:
  fixes d e :: int
  assumes "0 \<le> d" "0 \<le> e" "nat (d div 32) = nat (e div 32)" "nat (d mod 32) = nat (e mod 32)"
  shows "d = e"
proof -
  have "d div 32 = e div 32" using assms(1-3) by (simp add: pos_imp_zdiv_nonneg_iff)
  moreover have "d mod 32 = e mod 32" using assms(4) by simp
  ultimately show ?thesis by (metis div_mult_mod_eq)
qed

lemma dev_mask_holds_insert:
  assumes inv: "dev_mask_holds dev_mask seen" and d: "0 \<le> d" "d < 256"
  shows "dev_mask_holds
           (dev_mask[nat (d div 32) := (dev_mask ! nat (d div 32)) OR push_bit (nat (d mod 32)) 1])
           (insert d seen)"
proof -
  have len: "length dev_mask = 8" using inv by (simp add: dev_mask_holds_def)
  have bin: "nat (d div 32) < 8" using d by simp
  have idx: "nat (d mod 32) < 32" by simp
  {
    fix e :: int
    assume e: "0 \<le> e" "e < 256"
    have old: "bit (dev_mask ! nat (e div 32)) (nat (e mod 32)) \<longleftrightarrow> e \<in> seen"
      using inv e by (simp add: dev_mask_holds_def)
    have "bit ((dev_mask[nat (d div 32) := (dev_mask ! nat (d div 32)) OR push_bit (nat (d mod 32)) 1])
                ! nat (e div 32)) (nat (e mod 32)) \<longleftrightarrow> e \<in> insert d seen"
    proof (cases "nat (e div 32) = nat (d div 32)")
      case True
      have "bit (push_bit (nat (d mod 32)) (1 :: 32 word)) (nat (e mod 32))
            \<longleftrightarrow> nat (e mod 32) = nat (d mod 32)"
        using idx by (auto simp: bit_exp_iff possible_bit_word)
      moreover have "nat (e mod 32) = nat (d mod 32) \<longleftrightarrow> e = d"
        using True d(1) e(1) device_of_bin_and_bit [of e d] by auto
      ultimately show ?thesis
        using True old len bin by (auto simp: bit_or_iff)
    next
      case False
      moreover from False have "e \<noteq> d" by auto
      ultimately show ?thesis using old by simp
    qed
  }
  then show ?thesis using len by (simp add: dev_mask_holds_def)
qed

lemma resolved_devices_synchronized_update [simp]:
  "resolved_devices (c\<lparr>synchronized := devs\<rparr>) params = resolved_devices c params"
  by (simp add: resolved_devices_def cudaGetDevice_def)

lemma synchronize_loop_dedup:
  assumes "dev_mask_holds dev_mask seen"
  shows "synchronized (synchronize_loop params prev dev_mask c)
         = synchronized c @ dedup_devices seen prev (resolved_devices c params)"
  using assms
proof (induction params arbitrary: prev dev_mask c seen)
  case Nil
  then show ?case by (simp add: resolved_devices_def)
next
  case (Cons par params)
  define dev where "dev = (if sync_device par < 0 then cudaGetDevice c else sync_device par)"
  have nonneg: "0 \<le> dev" by (simp add: dev_def cudaGetDevice_def)
  have res: "resolved_devices c (par # params) = dev # resolved_devices c params"
    by (simp add: resolved_devices_def dev_def)
  show ?case
  proof (cases "dev < 256")
    case small: True
    have test: "((dev_mask ! nat (dev div 32)) AND push_bit (nat (dev mod 32)) 1 \<noteq> 0)
                \<longleftrightarrow> dev \<in> seen"
    proof -
      have "bit (dev_mask ! nat (dev div 32)) (nat (dev mod 32)) \<longleftrightarrow> dev \<in> seen"
        using Cons.prems nonneg small by (simp add: dev_mask_holds_def)
      then show ?thesis by (simp only: mask_test_bit)
    qed
    show ?thesis
    proof (cases "dev \<in> seen")
      case True
      with test small Cons.IH [OF Cons.prems, of prev c] show ?thesis
        by (simp add: res kMaxDevices_def Let_def dev_def [symmetric])
    next
      case False
      have inv': "dev_mask_holds
           (dev_mask[nat (dev div 32) := (dev_mask ! nat (dev div 32)) OR push_bit (nat (dev mod 32)) 1])
           (insert dev seen)"
        using Cons.prems nonneg small by (rule dev_mask_holds_insert)
      from False test small Cons.IH [OF inv', of dev "synchronize_on dev c"] show ?thesis
        by (simp add: res kMaxDevices_def Let_def dev_def [symmetric] synchronize_on_def)
    qed
  next
    case large: False
    show ?thesis
    proof (cases "dev = prev")
      case True
      with large Cons.IH [OF Cons.prems, of prev c] show ?thesis
        by (simp add: res kMaxDevices_def Let_def dev_def [symmetric])
    next
      case False
      with large Cons.IH [OF Cons.prems, of dev "synchronize_on dev c"] show ?thesis
        by (simp add: res kMaxDevices_def Let_def dev_def [symmetric] synchronize_on_def)
    qed
  qed
qed

lemma dedup_devices_small:
  assumes "\<forall>d \<in> set ds. d < 256"
  shows "dedup_devices seen prev ds = filter (\<lambda>d. d \<notin> seen) (first_occurrences ds)"
  using assms
proof (induction ds arbitrary: seen prev)
  case Nil
  then show ?case by simp
next
  case (Cons d ds)
  then have IH: "\<And>seen prev. dedup_devices seen prev ds = filter (\<lambda>d. d \<notin> seen) (first_occurrences ds)"
    by simp
  from Cons.prems have "d < 256" by simp
  then show ?case
    by (auto simp: IH intro: filter_cong)
qed

text \<open>
  C6, as amended. With \<^verbatim>\<open>sync_scope::device\<close>, \<^verbatim>\<open>synchronize(params)\<close> synchronizes
  the devices that the deduplication of the specification lists, in that order. When
  every device id of the batch is below 256 these are the distinct ids of the batch, each
  once, in the order of first appearance. (An id of 256 or more is synchronized again
  whenever another device was synchronized in between.)
\<close>

theorem synchronize_span_device:
  assumes "sync (options st) = scope_device"
  shows "synchronized (cuda (synchronize_span params st))
         = synchronized (cuda st) @ dedup_devices {} (- 1) (resolved_devices (cuda st) params)
       \<and> ((\<forall>d \<in> set (resolved_devices (cuda st) params). d < 256) \<longrightarrow>
            synchronized (cuda (synchronize_span params st))
            = synchronized (cuda st) @ first_occurrences (resolved_devices (cuda st) params)
            \<and> distinct (first_occurrences (resolved_devices (cuda st) params))
            \<and> set (first_occurrences (resolved_devices (cuda st) params))
              = set (resolved_devices (cuda st) params))"
proof -
  have general: "synchronized (cuda (synchronize_span params st))
         = synchronized (cuda st) @ dedup_devices {} (- 1) (resolved_devices (cuda st) params)"
    using assms synchronize_loop_dedup [OF dev_mask_holds_empty, of params "- 1" "cuda st"]
    by (simp add: synchronize_span_def)
  moreover have "dedup_devices {} (- 1) (resolved_devices (cuda st) params)
                 = first_occurrences (resolved_devices (cuda st) params)"
    if "\<forall>d \<in> set (resolved_devices (cuda st) params). d < 256"
    using dedup_devices_small [OF that, of "{}" "- 1"] by simp
  ultimately show ?thesis
    by (simp add: distinct_first_occurrences set_first_occurrences)
qed

text \<open>The batch on the devices 2, 2, 5, 2 synchronizes device 2, then device 5.\<close>

theorem synchronize_span_device_witness:
  "synchronized (cuda (synchronize_span [on_device 2, on_device 2, on_device 5, on_device 2]
      (test_pool (test_options\<lparr>sync := scope_device\<rparr>)))) = [2, 5]"
proof -
  let ?st = "test_pool (test_options\<lparr>sync := scope_device\<rparr>)"
  let ?params = "[on_device 2, on_device 2, on_device 5, on_device 2]"
  have scope: "sync (options ?st) = scope_device" by (simp add: test_defs)
  have devs: "resolved_devices (cuda ?st) ?params = [2, 2, 5, 2]"
    by (simp add: resolved_devices_def on_device_def)
  have old: "synchronized (cuda ?st) = []" by (simp add: test_defs)
  from synchronize_span_device [OF scope, of ?params] show ?thesis
    by (simp add: devs old)
qed

text \<open>
  The claim as stated fails on the batch 300, 301, 300: device 300 is synchronized
  twice.
\<close>

theorem synchronize_span_device_counterexample:
  "synchronized (cuda (synchronize_span [on_device 300, on_device 301, on_device 300]
      (test_pool (test_options\<lparr>sync := scope_device\<rparr>)))) = [300, 301, 300]"
  by (simp add: synchronize_span_def kMaxDevices_def on_device_def synchronize_on_def test_defs)

section \<open>Failure to record a new block\<close>

text \<open>
  C7. When the loop of \<^verbatim>\<open>get_upstream_block\<close> has obtained \<open>new_block\<close> of size
  \<open>blk_size\<close> from upstream and \<^verbatim>\<open>blocks_.push_back\<close> throws, the call ends with that
  exception in a pool where the block has been given back to upstream with the size and
  alignment it was allocated with, and whose list of owned blocks is the one the loop
  left.
\<close>

theorem get_upstream_block_push_back_fails:
  assumes "next_block_size st min_bytes = (blk_size0, st0)"
    and "upstream_loop E flush min_bytes alignment st0 blk_size0 False
         = Break new_block blk_size st1"
    and "push_back_fails E (blocks st1)"
  shows "get_upstream_block E flush st min_bytes alignment
         = Some (Inl push_back_failed,
                 st1\<lparr>upstream := up_deallocate E (upstream st1) new_block blk_size alignment\<rparr>)
       \<and> blocks (st1\<lparr>upstream := up_deallocate E (upstream st1) new_block blk_size alignment\<rparr>)
         = blocks st1"
  using assms by (simp add: get_upstream_block_def)

text \<open>
  With a list of owned blocks that cannot grow, the test upstream has nothing
  outstanding after the failed call and the pool owns no block.
\<close>

theorem get_upstream_block_push_back_fails_witness:
  "get_upstream_block (test_collaborators 100000 True) base_flush_deferred
     (test_pool test_options) 100 256
   = Some (Inl push_back_failed,
       (test_pool test_options)\<lparr>next_block_size_field := 8192,
          upstream := \<lparr>next_address = 73728, live = []\<rparr>\<rparr>)"
proof -
  let ?E = "test_collaborators 100000 True"
  let ?st = "test_pool test_options"
  let ?st1 = "?st\<lparr>next_block_size_field := 8192,
          upstream := \<lparr>next_address = 73728, live = [(65536, 8192)]\<rparr>\<rparr>"
  have nb: "next_block_size ?st 100 = (8192, ?st\<lparr>next_block_size_field := 8192\<rparr>)"
    by (simp add: eval_upstream)
  have loop: "upstream_loop ?E base_flush_deferred 100 256 (?st\<lparr>next_block_size_field := 8192\<rparr>)
                8192 False = Break 65536 8192 ?st1"
    by (simp add: eval_upstream)
  have full: "push_back_fails ?E (blocks ?st1)"
    by (simp add: test_defs)
  from get_upstream_block_push_back_fails [OF nb loop full]
  show ?thesis by (simp add: test_defs)
qed

section \<open>Shrinking after a failure\<close>

text \<open>
  C8, as amended. When the upstream allocation of \<open>blk_size\<close> fails,
  \<^verbatim>\<open>flush_deferred\<close> returns, \<^verbatim>\<open>try_smaller_on_failure\<close> is set and
  \<open>blk_size > min_bytes\<close>, the iteration goes round again with
  \<open>max min_bytes (blk_size >> 1)\<close>, which is the larger of \<open>min_bytes\<close> and half of
  \<open>blk_size\<close> rounded down and is smaller than \<open>blk_size\<close>, and has stored that value in
  the cursor. The first request of a later call is computed from that cursor: it is
  \<open>max upcoming (growth_factor cursor)\<close>, aligned up.
\<close>

theorem upstream_iteration_shrinks:
  fixes st :: "('fl, 'u, 'z) pool_resource_base_scheme"
  assumes "up_allocate E (upstream st) blk_size alignment = (None, u)"
    and "flush (st\<lparr>upstream := u\<rparr>) = Some st1"
    and "try_smaller_on_failure (options st1)"
    and "min_bytes < blk_size"
  shows "upstream_iteration E flush min_bytes alignment st blk_size tried
         = Retry (st1\<lparr>next_block_size_field := max min_bytes (drop_bit 1 blk_size)\<rparr>)
                 (max min_bytes (drop_bit 1 blk_size)) tried
       \<and> unat (max min_bytes (drop_bit 1 blk_size)) = max (unat min_bytes) (unat blk_size div 2)
       \<and> max min_bytes (drop_bit 1 blk_size) < blk_size
       \<and> fst (next_block_size (st1\<lparr>next_block_size_field := max min_bytes (drop_bit 1 blk_size)\<rparr>)
                upcoming)
         = (let actual = max upcoming
                           (growth_factor (options st1) (max min_bytes (drop_bit 1 blk_size)))
            in align_up actual (push_bit (nat (max (ilog2 actual - 10) 12)) 1))"
proof -
  from assms(4) have ne: "blk_size \<noteq> min_bytes" by simp
  have step: "upstream_iteration E flush min_bytes alignment st blk_size tried
         = Retry (st1\<lparr>next_block_size_field := max min_bytes (drop_bit 1 blk_size)\<rparr>)
                 (max min_bytes (drop_bit 1 blk_size)) tried"
    using assms(1-3) ne by (simp add: upstream_iteration_def shrink_def Let_def)
  have half: "unat (drop_bit (Suc 0) blk_size) = unat blk_size div 2"
    by (simp add: unat_drop_bit_eq drop_bit_eq_div unat_div)
  have u: "unat (max min_bytes (drop_bit 1 blk_size)) = max (unat min_bytes) (unat blk_size div 2)"
    by (simp add: max_def word_le_nat_alt half)
  from assms(4) have "blk_size \<noteq> 0" by (metis word_not_simps(1))
  then have "drop_bit 1 blk_size < blk_size" by (rule drop_bit_1_less)
  with assms(4) have less: "max min_bytes (drop_bit 1 blk_size) < blk_size" by (simp add: max_def)
  have next_call: "fst (next_block_size (st1\<lparr>next_block_size_field := max min_bytes (drop_bit 1 blk_size)\<rparr>)
                upcoming)
         = (let actual = max upcoming
                           (growth_factor (options st1) (max min_bytes (drop_bit 1 blk_size)))
            in align_up actual (push_bit (nat (max (ilog2 actual - 10) 12)) 1))"
    by (simp add: next_block_size_def Let_def)
  from step u less next_call show ?thesis by (intro conjI)
qed

text \<open>
  A request of at least 100 bytes: the upstream cannot give 16 KiB, and the next
  request is for 8 KiB, with the cursor at 8 KiB.
\<close>

theorem upstream_iteration_shrinks_witness:
  "upstream_iteration (test_collaborators 10000 False) base_flush_deferred 100 256
     (pinned_pool\<lparr>next_block_size_field := 16384\<rparr>) 16384 False
   = Retry (pinned_pool\<lparr>next_block_size_field := 8192\<rparr>) 8192 False"
proof -
  have fails: "up_allocate (test_collaborators 10000 False)
                 (upstream (pinned_pool\<lparr>next_block_size_field := 16384\<rparr>)) 16384 256
               = (None, upstream pinned_pool)"
    by (simp add: pinned_pool_def test_defs)
  have flush: "base_flush_deferred
                 (pinned_pool\<lparr>next_block_size_field := 16384, upstream := upstream pinned_pool\<rparr>)
               = Some (pinned_pool\<lparr>next_block_size_field := 16384\<rparr>)"
    by (simp add: base_flush_deferred_def pinned_pool_def test_defs)
  have smaller: "try_smaller_on_failure (options (pinned_pool\<lparr>next_block_size_field := 16384\<rparr>))"
    by (simp add: pinned_pool_def test_defs)
  have gt: "(100 :: size_t) < 16384" by simp
  from upstream_iteration_shrinks [where E = "test_collaborators 10000 False"
         and flush = base_flush_deferred and st = "pinned_pool\<lparr>next_block_size_field := 16384\<rparr>"
         and blk_size = 16384 and alignment = 256 and u = "upstream pinned_pool"
         and ?st1.0 = "pinned_pool\<lparr>next_block_size_field := 16384\<rparr>" and min_bytes = 100
         and tried = False, OF fails flush smaller gt]
  show ?thesis by (simp add: pinned_pool_def test_defs)
qed

text \<open>
  The claim as stated fails: with a growth factor of 2, a cursor of 8 KiB and an
  upstream that cannot give 16 KiB, a call asks for 16 KiB, fails, pins the cursor to
  8 KiB and obtains 8 KiB; the next call asks for 16 KiB again.
\<close>

theorem next_request_repeats_counterexample:
  "upstream_requests (test_collaborators 10000 False) base_flush_deferred 100 256
       (snd (next_block_size pinned_pool 100)) (fst (next_block_size pinned_pool 100)) False
     = [(16384, False), (8192, False)]
   \<and> get_upstream_block (test_collaborators 10000 False) base_flush_deferred pinned_pool 100 256
     = Some (Inr (65536, 8192),
         pinned_pool\<lparr>upstream := \<lparr>next_address = 73728, live = [(65536, 8192)]\<rparr>,
            next_block_size_field := 8192,
            blocks := [\<lparr>blk_ptr = 65536, blk_bytes = 8192, blk_alignment = 256\<rparr>]\<rparr>)
   \<and> fst (next_block_size
         (pinned_pool\<lparr>upstream := \<lparr>next_address = 73728, live = [(65536, 8192)]\<rparr>,
            next_block_size_field := 8192,
            blocks := [\<lparr>blk_ptr = 65536, blk_bytes = 8192, blk_alignment = 256\<rparr>]\<rparr>) 100)
     = 16384"
  by (simp add: eval_loop pinned_pool_def ilog2_16384 align_up_16384)

section \<open>Null pointers and empty requests\<close>

text \<open>
  C9, as amended. \<^verbatim>\<open>allocate(0, alignment)\<close> returns the null pointer and leaves the
  pool, its free list and the upstream as they are, and so does
  \<^verbatim>\<open>try_allocate_from_free(0, alignment)\<close>. \<^verbatim>\<open>deferred_deallocate\<close> does nothing for a null
  pointer or for zero bytes, and so does \<^verbatim>\<open>deallocate\<close> on a deferred pool whose
  deferred deallocation is enabled. On a deferred pool \<^verbatim>\<open>allocate(0, alignment)\<close> returns
  the null pointer too, after the flush that the backpressure may ask for. The
  \<^verbatim>\<open>deallocate\<close> of the base pool checks neither the pointer nor the size: for every
  pointer and size it synchronizes and puts the region in the free list.
\<close>

theorem null_and_zero_requests:
  fixes st :: "('fl, 'u, 'z) pool_resource_base_scheme"
    and dst :: "('fl, 'u, 'y) deferred_dealloc_pool_scheme"
  shows "do_allocate E flush st 0 alignment = Some (Inr 0, st)
   \<and> try_allocate_from_free E st 0 alignment = (0, st)
   \<and> deferred_deallocate dst 0 bytes alignment device_id = dst
   \<and> deferred_deallocate dst p 0 alignment device_id = dst
   \<and> (enable_deferred_deallocation (options dst) \<longrightarrow>
         deferred_do_deallocate E dst 0 bytes alignment = dst
         \<and> deferred_do_deallocate E dst p 0 alignment = dst)
   \<and> deferred_do_allocate E wait dst 0 alignment
       = map_option (\<lambda>s. (Inr 0, s))
           (if enable_deferred_deallocation (options dst)
               \<and> outstanding_dealloc_count dst > max_outstanding_deallocations (options dst)
            then flush_deferred wait dst else Some dst)
   \<and> do_deallocate E st p bytes alignment
       = st\<lparr>cuda := detail_synchronize (sync (options st)) (cuda st),
            free_list := fl_put E (free_list st) p bytes\<rparr>"
  by (simp add: do_allocate_def try_allocate_from_free_def deferred_deallocate_def
        deferred_do_deallocate_def deferred_do_allocate_def do_deallocate_def
        deallocate_no_sync_def synchronize_def split: option.splits)

text \<open>
  On the test doubles: empty requests on a fresh pool, and the deallocation of a null
  pointer and of zero bytes on a deferred pool with deferred deallocation enabled.
\<close>

theorem null_and_zero_requests_witness:
  "do_allocate (test_collaborators 100000 False) base_flush_deferred (test_pool test_options) 0 8
     = Some (Inr 0, test_pool test_options)
   \<and> try_allocate_from_free (test_collaborators 100000 False) (test_pool test_options) 0 8
     = (0, test_pool test_options)
   \<and> enable_deferred_deallocation
       (options (test_deferred_pool (test_options\<lparr>enable_deferred_deallocation := True\<rparr>)))
   \<and> deferred_do_deallocate (test_collaborators 100000 False)
       (test_deferred_pool (test_options\<lparr>enable_deferred_deallocation := True\<rparr>)) 0 64 8
     = test_deferred_pool (test_options\<lparr>enable_deferred_deallocation := True\<rparr>)
   \<and> deferred_do_deallocate (test_collaborators 100000 False)
       (test_deferred_pool (test_options\<lparr>enable_deferred_deallocation := True\<rparr>)) 65536 0 8
     = test_deferred_pool (test_options\<lparr>enable_deferred_deallocation := True\<rparr>)"
proof -
  let ?E = "test_collaborators 100000 False"
  let ?d = "test_deferred_pool (test_options\<lparr>enable_deferred_deallocation := True\<rparr>)"
  have en: "enable_deferred_deallocation (options ?d)"
    by (simp add: test_deferred_pool_def)
  from null_and_zero_requests [where E = ?E and flush = base_flush_deferred
         and st = "test_pool test_options" and alignment = 8 and dst = ?d and bytes = 64
         and p = 65536] en
  show ?thesis by simp
qed

text \<open>
  The claim as stated fails on the base pool: \<^verbatim>\<open>deallocate(nullptr, 64, 8)\<close> with
  \<^verbatim>\<open>sync_scope::device\<close> synchronizes device 0 and calls
  \<^verbatim>\<open>free_list_.put(nullptr, 64)\<close>; a deferred pool with deferred deallocation disabled
  (the host default) takes the same path.
\<close>

theorem base_deallocate_null_counterexample:
  "free_list (do_deallocate (test_collaborators 100000 False)
      (test_pool (test_options\<lparr>sync := scope_device\<rparr>)) 0 64 8) = [(0, 64)]
   \<and> synchronized (cuda (do_deallocate (test_collaborators 100000 False)
      (test_pool (test_options\<lparr>sync := scope_device\<rparr>)) 0 64 8)) = [0]
   \<and> free_list (test_pool (test_options\<lparr>sync := scope_device\<rparr>)) = []
   \<and> synchronized (cuda (test_pool (test_options\<lparr>sync := scope_device\<rparr>))) = []
   \<and> free_list (deferred_do_deallocate (test_collaborators 100000 False)
      (test_deferred_pool test_options) 0 64 8) = [(0, 64)]
   \<and> free_list (test_deferred_pool test_options) = []"
  by (simp add: do_deallocate_def deferred_do_deallocate_def deallocate_no_sync_def synchronize_def
        detail_synchronize_def cudaDeviceSynchronize_def cudaGetDevice_def test_defs
        test_deferred_pool_def)

section \<open>Flushing with nothing pending\<close>

text \<open>
  C10. When both queues are empty, \<^verbatim>\<open>flush_deferred\<close> returns at once with the pool
  unchanged, whatever a wait on \<^verbatim>\<open>ready_\<close> would have done (it does not wait, also
  when no worker would ever notify), and calling it again does the same.
\<close>

theorem flush_deferred_no_pending:
  assumes "no_pending_deallocs st"
  shows "flush_deferred wait st = Some st
         \<and> Option.bind (flush_deferred wait st) (flush_deferred wait) = Some st"
  using assms by (simp add: flush_deferred_def)

text \<open>A fresh deferred pool, with a wait that would never return.\<close>

theorem flush_deferred_no_pending_witness:
  "no_pending_deallocs (test_deferred_pool test_options)
   \<and> flush_deferred (\<lambda>s. None) (test_deferred_pool test_options)
       = Some (test_deferred_pool test_options)
   \<and> Option.bind (flush_deferred (\<lambda>s. None) (test_deferred_pool test_options))
        (flush_deferred (\<lambda>s. None)) = Some (test_deferred_pool test_options)"
proof -
  have h: "no_pending_deallocs (test_deferred_pool test_options)"
    by (simp add: no_pending_deallocs_def test_deferred_pool_def)
  from flush_deferred_no_pending [OF h, of "\<lambda>s. None"] h show ?thesis by simp
qed

end
